theory Spec2Isabelle
  imports Complex_Main
begin

section \<open>casautils: proper-motion correction of a measurement set\<close>

text \<open>
  A shallow embedding of \<^verbatim>\<open>casautils.py\<close>: the two functions \<^verbatim>\<open>correctForPM\<close> and
  \<^verbatim>\<open>updatePM\<close>, together with as much of their collaborators (numpy indexing, the CASA
  table tool, the Simbad query, \<^verbatim>\<open>print\<close>) as the two functions use.

  Conventions of the embedding.
  \<^item> A Python float (IEEE double) is a \<open>real\<close>: rounding, infinities and NaN are not
    modelled, every arithmetic step is exact.  A Python int is an \<open>int\<close>.  A numpy
    \<^verbatim>\<open>int64\<close> cell holds an \<open>int\<close>; the store \<open>int64_store\<close> raises beyond its range.
    numpy is taken as of version 1.25 or later (a comparison of arrays whose shapes
    do not broadcast raises).
  \<^item> An exception is a value: every function that can raise returns a sum whose left
    summand carries the exception and, where the function writes, the state reached
    when it was raised (writes made before a raise stay on disk).
  \<^item> The measurement set on disk is a record of its FIELD and SOURCE tables, a table a
    list of rows.  \<^verbatim>\<open>shutil.copytree(inms, outms)\<close> makes the output start as a copy of
    the input; everything afterwards reads and writes that copy only.  Opening and
    closing a table has no effect of its own in the embedding.
  \<^item> \<^verbatim>\<open>print\<close> appends a message to the standard output kept in the state.
\<close>

subsection \<open>Python values\<close>

text \<open>
  The dynamically typed arguments \<^verbatim>\<open>field\<close>, \<^verbatim>\<open>years\<close> and \<^verbatim>\<open>newtime\<close>.  The embedding
  covers \<^verbatim>\<open>None\<close>, ints, floats, strings and two kinds of flat list: \<open>PyList xs\<close>, whose
  elements are \<^verbatim>\<open>None\<close>, ints and strings in any mix, and \<open>PyFloats xs\<close>, a list of
  numbers with a float among them, given by the values of its numbers.  A list that
  holds a float next to a string or \<^verbatim>\<open>None\<close>, \<^verbatim>\<open>bool\<close> values and nested sequences are
  outside it.
\<close>

datatype scalar = PyNone | PyInt int | PyFloat real | PyStr string

datatype item = NoneItem | IntItem int | StrItem string

datatype pyval = Scalar scalar | PyList "item list" | PyFloats "real list"


fun is_StrItem :: "item \<Rightarrow> bool" where
  "is_StrItem (StrItem s) = True"
| "is_StrItem v = False"

fun the_int :: "item \<Rightarrow> int" where
  "the_int (IntItem n) = n"
| "the_int v = 0"

text \<open>\<^verbatim>\<open>str(n)\<close> for an int: its decimal digits, after a minus sign when negative.\<close>

fun digits :: "nat \<Rightarrow> string" where
  "digits n = (if n < 10 then [char_of (48 + n)] else digits (n div 10) @ [char_of (48 + n mod 10)])"

definition py_str :: "int \<Rightarrow> string" where
  "py_str n = (if n < 0 then CHR ''-'' # digits (nat (- n)) else digits (nat n))"

subsection \<open>Exceptions and messages\<close>

text \<open>Where an \<^verbatim>\<open>IndexError\<close> is raised.\<close>

datatype site =
    SyncRow       \<comment> \<open>line 129, \<^verbatim>\<open>[:,sid[0][0]]\<close>: no row was found, or one beyond the table\<close>
  | FieldRows     \<comment> \<open>lines 68-69, indexing a FIELD column by \<^verbatim>\<open>fieldid\<close>\<close>
  | FirstSelected \<comment> \<open>line 74, \<^verbatim>\<open>sources[0]\<close>: nothing was selected\<close>
  | SourceRow     \<comment> \<open>line 74, \<^verbatim>\<open>[0][0]\<close>: no SOURCE row has the source identifier\<close>

datatype error =
    IndexError site
  | TypeError       \<comment> \<open>line 93, \<^verbatim>\<open>years*SECONDS_PER_YEAR\<close> on a value that is not a number\<close>
  | OverflowError   \<comment> \<open>lines 83, 90 and 93: a value beyond \<^verbatim>\<open>int64\<close>, an int beyond the doubles\<close>
  | ValueError      \<comment> \<open>line 128, \<^verbatim>\<open>names==source\<close> on shapes that do not broadcast\<close>
  | RuntimeError    \<comment> \<open>lines 100, 104 and 133, the table tool refusing a row number\<close>

datatype msg =
    CalculatingNewDirection int       \<comment> \<open>line 98\<close>
  | DidNotFindSource pyval            \<comment> \<open>line 108\<close>
  | NotFound pyval                    \<comment> \<open>line 120\<close>
  | ProperMotionFound real real       \<comment> \<open>lines 122-123, in mas/yr\<close>
  | CurrentProperMotion real real     \<comment> \<open>lines 130-131, in mas/yr\<close>
  | ProperMotionUpdated               \<comment> \<open>line 134\<close>

subsection \<open>The measurement set\<close>

type_synonym direction = "real \<times> real"  \<comment> \<open>(right ascension, declination), radians\<close>

datatype dircol = REFERENCE_DIR | PHASE_DIR | DELAY_DIR

record field_row =
  F_NAME :: string
  F_SOURCE_ID :: int
  F_TIME :: real
  F_DIR :: "dircol \<Rightarrow> direction"

record source_row =
  S_NAME :: string
  S_SOURCE_ID :: int
  PROPER_MOTION :: "real \<times> real"  \<comment> \<open>radians/second\<close>

record dataset =
  FIELD :: "field_row list"
  SOURCE :: "source_row list"

record world = dataset +
  stdout :: "msg list"

type_synonym outcome = "(error \<times> world) + world"

definition print :: "msg \<Rightarrow> world \<Rightarrow> world" where
  "print m w = w\<lparr>stdout := stdout w @ [m]\<rparr>"

text \<open>The state an invocation ends in, whether it returned or raised.\<close>

fun final :: "(error \<times> 'a) + 'a \<Rightarrow> 'a" where
  "final (Inl (e, w)) = w"
| "final (Inr w) = w"

subsection \<open>Constants\<close>

definition SECONDS_PER_YEAR :: real where
  "SECONDS_PER_YEAR = 31556925"

definition ARCSEC_PER_RAD :: real where
  "ARCSEC_PER_RAD = 206264.80624709636"

text \<open>The factor \<^verbatim>\<open>(1000*ARCSEC_PER_RAD*SECONDS_PER_YEAR)\<close> of lines 125 and 129.\<close>

definition MAS_YR_PER_RAD_S :: real where
  "MAS_YR_PER_RAD_S = 1000 * ARCSEC_PER_RAD * SECONDS_PER_YEAR"

text \<open>Line 125: milliarcseconds/year to radians/second.\<close>

definition to_rad_s :: "real \<times> real \<Rightarrow> real \<times> real" where
  "to_rad_s p = (fst p / MAS_YR_PER_RAD_S, snd p / MAS_YR_PER_RAD_S)"

text \<open>Line 129: radians/second to milliarcseconds/year.\<close>

definition to_mas_yr :: "real \<times> real \<Rightarrow> real \<times> real" where
  "to_mas_yr p = (fst p * MAS_YR_PER_RAD_S, snd p * MAS_YR_PER_RAD_S)"

subsection \<open>numpy\<close>

text \<open>\<^verbatim>\<open>np.where(xs == v)[0]\<close>: the positions of \<open>v\<close> in \<open>xs\<close>, ascending.\<close>

definition where_eq :: "'a list \<Rightarrow> 'a \<Rightarrow> int list" where
  "where_eq xs v = map int (filter (\<lambda>i. xs ! i = v) [0..<length xs])"

text \<open>
  Arrays: a one-dimensional array of ints, of floats, of strings or of objects, or the
  zero-dimensional array that \<^verbatim>\<open>np.array\<close> makes of \<^verbatim>\<open>None\<close> or of a float.
\<close>

datatype ndarray =
    IntArr "int list"
  | FloatArr "real list"
  | StrArr "string list"
  | ObjArr "item list"
  | ZeroDim scalar

text \<open>
  \<^verbatim>\<open>np.array(xs)\<close> for a list of \<^verbatim>\<open>None\<close>, ints and strings: objects when \<^verbatim>\<open>None\<close> is among
  them; else strings when a string is, every int turned into its text; else ints; and
  the empty list makes an empty array of floats.
\<close>

fun item_text :: "item \<Rightarrow> string" where
  "item_text (StrItem s) = s"
| "item_text (IntItem n) = py_str n"
| "item_text NoneItem = ''None''"

definition np_array :: "item list \<Rightarrow> ndarray" where
  "np_array xs =
     (if list_ex (\<lambda>x. x = NoneItem) xs then ObjArr xs
      else if list_ex is_StrItem xs then StrArr (map item_text xs)
      else if xs = [] then FloatArr []
      else IntArr (map the_int xs))"

fun arr_len :: "ndarray \<Rightarrow> nat" where
  "arr_len (IntArr xs) = length xs"
| "arr_len (FloatArr xs) = length xs"
| "arr_len (StrArr xs) = length xs"
| "arr_len (ObjArr xs) = length xs"
| "arr_len (ZeroDim v) = 1"

text \<open>
  Whether element \<open>i\<close> of an array equals a string: a number never does, an object
  does when it is that string.
\<close>

fun elem_eq :: "ndarray \<Rightarrow> nat \<Rightarrow> string \<Rightarrow> bool" where
  "elem_eq (StrArr xs) i name = (xs ! i = name)"
| "elem_eq (ObjArr xs) i name = (xs ! i = StrItem name)"
| "elem_eq a i name = False"

text \<open>
  \<^verbatim>\<open>np.where(names == a)[0]\<close> for a one-dimensional array \<open>a\<close>: the two shapes broadcast
  when the lengths are equal or one of them is 1, the shorter operand being repeated;
  otherwise the comparison raises \<^verbatim>\<open>ValueError\<close>.
\<close>

definition np_eq_where :: "string list \<Rightarrow> ndarray \<Rightarrow> error + int list" where
  "np_eq_where names a =
     (let n = length names; k = arr_len a in
      if k = n \<or> k = 1 \<or> n = 1
      then Inr (map int (filter
                  (\<lambda>i. elem_eq a (if k = 1 then 0 else i) (names ! (if n = 1 then 0 else i)))
                  [0..<(if n = 1 then k else n)]))
      else Inl ValueError)"

text \<open>
  \<^verbatim>\<open>xs[a]\<close>: only an array of ints is an index.  An index \<open>i\<close> is in bounds when
  \<open>-n \<le> i < n\<close>, a negative one counts from the end; otherwise \<^verbatim>\<open>IndexError\<close>.
\<close>

definition np_row :: "nat \<Rightarrow> int \<Rightarrow> nat" where
  "np_row n i = nat (if i < 0 then i + int n else i)"

definition np_take :: "'a list \<Rightarrow> ndarray \<Rightarrow> error + 'a list" where
  "np_take xs a =
     (case a of
        IntArr ids \<Rightarrow>
          (let n = int (length xs) in
           if list_all (\<lambda>i. - n \<le> i \<and> i < n) ids
           then Inr (map (\<lambda>i. xs ! np_row (length xs) i) ids)
           else Inl (IndexError FieldRows))
      | _ \<Rightarrow> Inl (IndexError FieldRows))"

text \<open>
  Storing a float in an \<^verbatim>\<open>int64\<close> cell: truncation toward zero; a value beyond the
  range of \<^verbatim>\<open>int64\<close> raises \<^verbatim>\<open>OverflowError\<close>.
\<close>

definition trunc :: "real \<Rightarrow> int" where
  "trunc x = (if x < 0 then \<lceil>x\<rceil> else \<lfloor>x\<rfloor>)"

definition int64_store :: "real \<Rightarrow> error + int" where
  "int64_store x =
     (let t = trunc x in if - (2 ^ 63) \<le> t \<and> t < 2 ^ 63 then Inr t else Inl OverflowError)"

text \<open>The cells of an \<^verbatim>\<open>int64\<close> array stored one after the other, first to last.\<close>

fun store_each :: "real list \<Rightarrow> error + int list" where
  "store_each [] = Inr []"
| "store_each (x # xs) =
     (case int64_store x of
        Inl e \<Rightarrow> Inl e
      | Inr s \<Rightarrow> (case store_each xs of Inl e \<Rightarrow> Inl e | Inr ss \<Rightarrow> Inr (s # ss)))"

subsection \<open>The table tool\<close>

text \<open>
  \<^verbatim>\<open>tb.getcell(direct, j)\<close> and \<^verbatim>\<open>tb.putcell(direct, j, v)\<close> on the FIELD table: the row
  number must be one of the table, \<open>0 \<le> j < nrows\<close>.
\<close>

definition getcell :: "dircol \<Rightarrow> int \<Rightarrow> field_row list \<Rightarrow> error + direction" where
  "getcell direct j tab =
     (if 0 \<le> j \<and> j < int (length tab) then Inr (F_DIR (tab ! nat j) direct)
      else Inl RuntimeError)"

definition putcell :: "dircol \<Rightarrow> int \<Rightarrow> direction \<Rightarrow> field_row list \<Rightarrow> error + field_row list" where
  "putcell direct j v tab =
     (if 0 \<le> j \<and> j < int (length tab)
      then Inr (tab[nat j := (tab ! nat j)\<lparr>F_DIR := (F_DIR (tab ! nat j))(direct := v)\<rparr>])
      else Inl RuntimeError)"

text \<open>
  \<^verbatim>\<open>tb.putcell('PROPER_MOTION', s, newpm)\<close> on the SOURCE table, \<open>s\<close> an array of row
  numbers: the listed rows get the value one after the other, and a number that is
  not one of the table raises, the rows before it written.
\<close>

fun putcell_pm ::
  "int list \<Rightarrow> real \<times> real \<Rightarrow> source_row list \<Rightarrow> (error \<times> source_row list) + source_row list" where
  "putcell_pm [] v tab = Inr tab"
| "putcell_pm (s # ss) v tab =
     (if 0 \<le> s \<and> s < int (length tab)
      then putcell_pm ss v (tab[nat s := (tab ! nat s)\<lparr>PROPER_MOTION := v\<rparr>])
      else Inl (RuntimeError, tab))"

subsection \<open>updatePM (lines 111-135)\<close>

text \<open>
  \<^verbatim>\<open>Simbad.query_object(source)\<close> is a parameter: the reply to a query is \<open>None\<close> (no
  match) or the pair \<^verbatim>\<open>(PMRA, PMDEC)\<close> of the first row of the result table, in mas/yr.
  A query that raises (no network, an argument the client refuses) is outside the
  embedding; it would end the invocation before anything but the copy is written.
\<close>

type_synonym catalog = "pyval \<Rightarrow> (real \<times> real) option"

text \<open>
  Line 128, \<^verbatim>\<open>np.where(names==source)[0]\<close>: a string is compared with every name; a
  scalar that is not a string equals no name; a list is made an array and compared
  with the names element by element, as the shapes broadcast.
\<close>

fun name_rows :: "string list \<Rightarrow> pyval \<Rightarrow> error + int list" where
  "name_rows names (Scalar (PyStr s)) = Inr (where_eq names s)"
| "name_rows names (Scalar v) = Inr []"
| "name_rows names (PyList xs) = np_eq_where names (np_array xs)"
| "name_rows names (PyFloats xs) = np_eq_where names (FloatArr xs)"

definition updatePM :: "catalog \<Rightarrow> world \<Rightarrow> pyval \<Rightarrow> outcome" where
  "updatePM simbad w source =
     (case simbad source of
        None \<Rightarrow> Inr (print (NotFound source) w)
      | Some result \<Rightarrow>
          (let w1 = print (ProperMotionFound (fst result) (snd result)) w;
               newpm = to_rad_s result
           in case name_rows (map S_NAME (SOURCE w1)) source of
                Inl e \<Rightarrow> Inl (e, w1)
              | Inr sid \<Rightarrow>
                  (case sid of
                     [] \<Rightarrow> Inl (IndexError SyncRow, w1)
                   | s0 # _ \<Rightarrow>
                       if \<not> s0 < int (length (SOURCE w1)) then Inl (IndexError SyncRow, w1)
                       else
                         (let pm = to_mas_yr (PROPER_MOTION (SOURCE w1 ! nat s0));
                              w2 = print (CurrentProperMotion (fst pm) (snd pm)) w1
                          in case putcell_pm sid newpm (SOURCE w2) of
                               Inl (e, tab) \<Rightarrow> Inl (e, w2\<lparr>SOURCE := tab\<rparr>)
                             | Inr tab \<Rightarrow> Inr (print ProperMotionUpdated (w2\<lparr>SOURCE := tab\<rparr>))))))"

subsection \<open>correctForPM (lines 54-109)\<close>

text \<open>Lines 61-67: the array of field identifiers.\<close>

fun fieldid_of :: "string list \<Rightarrow> pyval \<Rightarrow> ndarray" where
  "fieldid_of names (Scalar (PyStr s)) = IntArr (where_eq names s)"
| "fieldid_of names (Scalar (PyInt n)) = IntArr [n]"
| "fieldid_of names (Scalar v) = ZeroDim v"
| "fieldid_of names (PyList xs) = np_array xs"
| "fieldid_of names (PyFloats xs) = FloatArr xs"

text \<open>
  Line 74: \<^verbatim>\<open>np.where(sourceids==sources[0])[0][0]\<close>, the first SOURCE row of the source
  of the first selected field.
\<close>

definition first_instance :: "int list \<Rightarrow> int list \<Rightarrow> error + nat" where
  "first_instance sourceids sources =
     (case sources of
        [] \<Rightarrow> Inl (IndexError FirstSelected)
      | s0 # _ \<Rightarrow>
          (case where_eq sourceids s0 of
             [] \<Rightarrow> Inl (IndexError SourceRow)
           | k # _ \<Rightarrow> Inr (nat k)))"

text \<open>
  Lines 85 and 93: \<^verbatim>\<open>years == 0\<close> and \<^verbatim>\<open>years*SECONDS_PER_YEAR\<close>.  The product makes a
  float of an int first, which raises \<^verbatim>\<open>OverflowError\<close> for an int that rounds beyond
  the largest double, \<open>2 ^ 1024 - 2 ^ 971\<close>.
\<close>

fun py_eq_zero :: "pyval \<Rightarrow> bool" where
  "py_eq_zero (Scalar (PyInt n)) = (n = 0)"
| "py_eq_zero (Scalar (PyFloat x)) = (x = 0)"
| "py_eq_zero v = False"

fun py_times_float :: "pyval \<Rightarrow> real \<Rightarrow> error + real" where
  "py_times_float (Scalar (PyInt n)) c =
     (if \<bar>n\<bar> < 2 ^ 1024 - 2 ^ 970 then Inr (of_int n * c) else Inl OverflowError)"
| "py_times_float (Scalar (PyFloat x)) c = Inr (x * c)"
| "py_times_float v c = Inl TypeError"

text \<open>
  Lines 78-93: the array \<^verbatim>\<open>seconds\<close>, of the integer type of \<^verbatim>\<open>fieldid\<close>, one cell per
  selected field; \<open>ts\<close> is the array \<^verbatim>\<open>times\<close>.
\<close>

definition seconds_of :: "pyval \<Rightarrow> pyval \<Rightarrow> real list \<Rightarrow> error + int list" where
  "seconds_of newtime years ts =
     (case newtime of
        Scalar (PyFloat t) \<Rightarrow> store_each (map (\<lambda>timestamp. t - timestamp) ts)
      | _ \<Rightarrow>
          if py_eq_zero years
          then store_each (map (\<lambda>timestamp. timestamp - 4453401600) ts)
          else (case py_times_float years SECONDS_PER_YEAR of
                  Inl e \<Rightarrow> Inl e
                | Inr v \<Rightarrow> store_each (map (\<lambda>timestamp. v) ts)))"

text \<open>
  Lines 101-103: the new direction of one cell.  The cosine of a double is never 0;
  that of a real can be, and there the quotient is HOL's \<open>x / 0 = 0\<close>, which stands for
  nothing the program computes.
\<close>

definition new_direction :: "real \<times> real \<Rightarrow> int \<Rightarrow> direction \<Rightarrow> direction" where
  "new_direction properMotion s direction =
     (let new_dec = snd direction + snd properMotion * of_int s;
          new_ra = fst direction + fst properMotion * of_int s / cos new_dec
      in (new_ra, new_dec))"

text \<open>What lines 99-104 make of a row: each of its three directions moved.\<close>

definition shift_row :: "real \<times> real \<Rightarrow> int \<Rightarrow> field_row \<Rightarrow> field_row" where
  "shift_row properMotion s row =
     row\<lparr>F_DIR := (\<lambda>direct. new_direction properMotion s (F_DIR row direct))\<rparr>"

text \<open>Lines 99-104: the loop over the three direction columns, for the field \<open>j\<close>.\<close>

fun correct_roles ::
  "dircol list \<Rightarrow> real \<times> real \<Rightarrow> int \<Rightarrow> int \<Rightarrow> field_row list
     \<Rightarrow> (error \<times> field_row list) + field_row list" where
  "correct_roles [] properMotion s j tab = Inr tab"
| "correct_roles (direct # rest) properMotion s j tab =
     (case getcell direct j tab of
        Inl e \<Rightarrow> Inl (e, tab)
      | Inr direction \<Rightarrow>
          (case putcell direct j (new_direction properMotion s direction) tab of
             Inl e \<Rightarrow> Inl (e, tab)
           | Inr tab' \<Rightarrow> correct_roles rest properMotion s j tab'))"

text \<open>Lines 97-105: the loop over \<^verbatim>\<open>enumerate(fieldid)\<close>, \<open>s\<close> being \<^verbatim>\<open>seconds[i]\<close>.\<close>

fun update_fields :: "(int \<times> int) list \<Rightarrow> real \<times> real \<Rightarrow> world \<Rightarrow> outcome" where
  "update_fields [] properMotion w = Inr w"
| "update_fields ((j, s) # rest) properMotion w =
     (let w1 = print (CalculatingNewDirection j) w
      in case correct_roles [REFERENCE_DIR, PHASE_DIR, DELAY_DIR] properMotion s j (FIELD w1) of
           Inl (e, tab) \<Rightarrow> Inl (e, w1\<lparr>FIELD := tab\<rparr>)
         | Inr tab \<Rightarrow> update_fields rest properMotion (w1\<lparr>FIELD := tab\<rparr>))"

text \<open>
  Lines 60-93: what the function reads and computes before it writes a direction.
\<close>

record plan =
  fieldid :: "int list"
  seconds :: "int list"
  properMotion :: "real \<times> real"

definition prepare :: "world \<Rightarrow> pyval \<Rightarrow> pyval \<Rightarrow> pyval \<Rightarrow> error + plan" where
  "prepare w field years newtime =
     (let a = fieldid_of (map F_NAME (FIELD w)) field in
      case np_take (map F_SOURCE_ID (FIELD w)) a of
        Inl e \<Rightarrow> Inl e
      | Inr sources \<Rightarrow>
      (case np_take (map F_TIME (FIELD w)) a of
        Inl e \<Rightarrow> Inl e
      | Inr ts \<Rightarrow>
      (case first_instance (map S_SOURCE_ID (SOURCE w)) sources of
        Inl e \<Rightarrow> Inl e
      | Inr firstinst \<Rightarrow>
      (case seconds_of newtime years ts of
        Inl e \<Rightarrow> Inl e
      | Inr secs \<Rightarrow>
          Inr \<lparr>fieldid = (case a of IntArr ids \<Rightarrow> ids | _ \<Rightarrow> []),
               seconds = secs,
               properMotion = PROPER_MOTION (SOURCE w ! firstinst)\<rparr>))))"

text \<open>Lines 56-57: the output starts as a copy of the input, nothing printed yet.\<close>

definition copytree :: "dataset \<Rightarrow> world" where
  "copytree inms = \<lparr>FIELD = FIELD inms, SOURCE = SOURCE inms, stdout = []\<rparr>"

text \<open>Line 58: \<^verbatim>\<open>if updatepm == True: updatePM(outms,field)\<close>, on the fresh copy.\<close>

definition copy_and_sync :: "catalog \<Rightarrow> dataset \<Rightarrow> pyval \<Rightarrow> bool \<Rightarrow> outcome" where
  "copy_and_sync simbad inms field updatepm =
     (if updatepm then updatePM simbad (copytree inms) field else Inr (copytree inms))"

text \<open>
  The whole function.  \<^verbatim>\<open>foundSource\<close> is still 0 at line 107 exactly when the body of the
  loop of line 97 never ran, that is when \<^verbatim>\<open>fieldid\<close> is empty.
\<close>

definition correctForPM ::
  "catalog \<Rightarrow> dataset \<Rightarrow> pyval \<Rightarrow> pyval \<Rightarrow> pyval \<Rightarrow> bool \<Rightarrow> outcome" where
  "correctForPM simbad inms field years newtime updatepm =
     (case copy_and_sync simbad inms field updatepm of
        Inl f \<Rightarrow> Inl f
      | Inr w1 \<Rightarrow>
          (case prepare w1 field years newtime of
             Inl e \<Rightarrow> Inl (e, w1)
           | Inr p \<Rightarrow>
               (case update_fields (zip (fieldid p) (seconds p)) (properMotion p) w1 of
                  Inl f \<Rightarrow> Inl f
                | Inr w2 \<Rightarrow>
                    Inr (if fieldid p = [] then print (DidNotFindSource field) w2 else w2))))"

subsection \<open>Example datasets\<close>

definition demo_sources :: "source_row list" where
  "demo_sources =
     [\<lparr>S_NAME = ''hr8799'', S_SOURCE_ID = 0, PROPER_MOTION = (0, 0)\<rparr>,
      \<lparr>S_NAME = ''other'', S_SOURCE_ID = 1, PROPER_MOTION = (5, 6)\<rparr>,
      \<lparr>S_NAME = ''hr8799'', S_SOURCE_ID = 0, PROPER_MOTION = (7, 8)\<rparr>]"

definition demo_ms :: dataset where
  "demo_ms =
     \<lparr>FIELD =
        [\<lparr>F_NAME = ''hr8799'', F_SOURCE_ID = 7, F_TIME = 4453401700.5,
          F_DIR = (\<lambda>direct. (1, 1 / 10))\<rparr>,
         \<lparr>F_NAME = ''j0000'', F_SOURCE_ID = 8, F_TIME = 4453401800,
          F_DIR = (\<lambda>direct. (2, 1 / 5))\<rparr>],
      SOURCE =
        [\<lparr>S_NAME = ''j0000'', S_SOURCE_ID = 8, PROPER_MOTION = (0, 0)\<rparr>,
         \<lparr>S_NAME = ''hr8799'', S_SOURCE_ID = 7, PROPER_MOTION = (1 / 100, 1 / 1000)\<rparr>]\<rparr>"

text \<open>A field whose phase direction has another declination than the other two.\<close>

definition skew_ms :: dataset where
  "skew_ms =
     \<lparr>FIELD =
        [\<lparr>F_NAME = ''hr8799'', F_SOURCE_ID = 7, F_TIME = 4453401700,
          F_DIR = (\<lambda>direct. if direct = PHASE_DIR then (1, pi / 3) else (1, 0))\<rparr>],
      SOURCE =
        [\<lparr>S_NAME = ''hr8799'', S_SOURCE_ID = 7, PROPER_MOTION = (1 / 100, 0)\<rparr>]\<rparr>"

text \<open>A catalog that knows no source.\<close>

definition no_catalog :: catalog where
  "no_catalog = (\<lambda>source. None)"

text \<open>A catalog that knows one source, with its proper motion in mas/yr.\<close>

definition demo_catalog :: catalog where
  "demo_catalog = (\<lambda>source. if source = Scalar (PyStr ''hr8799'') then Some (108, - 50) else None)"


section \<open>Unit conversion\<close>

lemma MAS_YR_PER_RAD_S_nonzero: "MAS_YR_PER_RAD_S \<noteq> 0"
  by (simp add: MAS_YR_PER_RAD_S_def ARCSEC_PER_RAD_def SECONDS_PER_YEAR_def)

text \<open>
  Claim C6.  A proper motion in milliarcseconds/year, converted to radians/second as
  line 125 does (division by \<open>1000 * ARCSEC_PER_RAD * SECONDS_PER_YEAR\<close>) and
  converted back as line 129 does (multiplication by the same factor), is the pair
  one started from.  Floats being reals here, the round trip is exact.
\<close>

theorem unit_round_trip: "to_mas_yr (to_rad_s p) = p"
  by (simp add: to_mas_yr_def to_rad_s_def MAS_YR_PER_RAD_S_nonzero)

section \<open>numpy selections and table writes\<close>

lemma set_where_eq: "set (where_eq xs v) = {int i |i. i < length xs \<and> xs ! i = v}"
  by (auto simp: where_eq_def)

lemma where_eq_bounds: "s \<in> set (where_eq xs v) \<Longrightarrow> 0 \<le> s \<and> s < int (length xs)"
  by (auto simp: set_where_eq)

lemma where_eq_empty_iff: "where_eq xs v = [] \<longleftrightarrow> v \<notin> set xs"
proof -
  have "where_eq xs v = [] \<longleftrightarrow> set (where_eq xs v) = {}" by simp
  also have "\<dots> \<longleftrightarrow> v \<notin> set xs"
    by (auto simp: set_where_eq in_set_conv_nth)
  finally show ?thesis .
qed

lemma distinct_where_eq: "distinct (where_eq xs v)"
  by (simp add: where_eq_def distinct_map inj_on_def)

lemma putcell_pm_frame:
  "length (final (putcell_pm ss v tab)) = length tab \<and>
   (\<forall>k<length tab.
      final (putcell_pm ss v tab) ! k = tab ! k \<or>
      int k \<in> set ss \<and> final (putcell_pm ss v tab) ! k = (tab ! k)\<lparr>PROPER_MOTION := v\<rparr>)"
proof (induction ss arbitrary: tab)
  case Nil
  show ?case by simp
next
  case (Cons s ss)
  show ?case
  proof (cases "0 \<le> s \<and> s < int (length tab)")
    case False
    then have "putcell_pm (s # ss) v tab = Inl (RuntimeError, tab)" by auto
    then show ?thesis by simp
  next
    case True
    let ?tab = "tab[nat s := (tab ! nat s)\<lparr>PROPER_MOTION := v\<rparr>]"
    have step: "putcell_pm (s # ss) v tab = putcell_pm ss v ?tab" using True by simp
    have len: "length (final (putcell_pm ss v ?tab)) = length tab" using Cons.IH[of ?tab] by simp
    have "final (putcell_pm ss v ?tab) ! k = tab ! k \<or>
          int k \<in> set (s # ss) \<and> final (putcell_pm ss v ?tab) ! k = (tab ! k)\<lparr>PROPER_MOTION := v\<rparr>"
      if k: "k < length tab" for k
    proof -
      from Cons.IH[of ?tab] k have ih: "final (putcell_pm ss v ?tab) ! k = ?tab ! k \<or>
          int k \<in> set ss \<and> final (putcell_pm ss v ?tab) ! k = (?tab ! k)\<lparr>PROPER_MOTION := v\<rparr>"
        by simp
      show ?thesis
      proof (cases "k = nat s")
        case True
        then have "int k = s" using \<open>0 \<le> s \<and> s < int (length tab)\<close> by simp
        moreover have "?tab ! k = (tab ! k)\<lparr>PROPER_MOTION := v\<rparr>" using True k by simp
        ultimately show ?thesis using ih by auto
      next
        case False
        then have "?tab ! k = tab ! k" by simp
        then show ?thesis using ih by auto
      qed
    qed
    then show ?thesis unfolding step using len by blast
  qed
qed

lemma putcell_pm_valid:
  assumes "\<forall>s\<in>set ss. 0 \<le> s \<and> s < int (length tab)"
  shows "\<exists>tab'. putcell_pm ss v tab = Inr tab' \<and> length tab' = length tab \<and>
           (\<forall>k<length tab. tab' ! k =
              (if int k \<in> set ss then (tab ! k)\<lparr>PROPER_MOTION := v\<rparr> else tab ! k))"
  using assms
proof (induction ss arbitrary: tab)
  case Nil
  show ?case by simp
next
  case (Cons s ss)
  have s: "0 \<le> s" "s < int (length tab)" using Cons.prems by simp_all
  let ?tab = "tab[nat s := (tab ! nat s)\<lparr>PROPER_MOTION := v\<rparr>]"
  have step: "putcell_pm (s # ss) v tab = putcell_pm ss v ?tab" using s by simp
  have "\<forall>s\<in>set ss. 0 \<le> s \<and> s < int (length ?tab)" using Cons.prems by simp
  from Cons.IH[OF this] obtain tab' where t: "putcell_pm ss v ?tab = Inr tab'"
      "length tab' = length tab"
      "\<forall>k<length tab. tab' ! k =
         (if int k \<in> set ss then (?tab ! k)\<lparr>PROPER_MOTION := v\<rparr> else ?tab ! k)"
    by auto
  have "tab' ! k = (if int k \<in> set (s # ss) then (tab ! k)\<lparr>PROPER_MOTION := v\<rparr> else tab ! k)"
    if k: "k < length tab" for k
  proof (cases "nat s = k")
    case True
    then have "s = int k" using s by simp
    then show ?thesis using t(3) k by simp
  next
    case False
    then have "s \<noteq> int k" by auto
    then show ?thesis using False t(3) k by simp
  qed
  then show ?case unfolding step using t(1,2) by blast
qed

lemma name_rows_name: "name_rows names (Scalar (PyStr s)) = Inr (where_eq names s)"
  by simp

text \<open>A scalar that is not a string finds no row.\<close>

lemma name_rows_scalar:
  "\<forall>s. v \<noteq> PyStr s \<Longrightarrow> name_rows names (Scalar v) = Inr []"
  by (cases v) simp_all

section \<open>updatePM\<close>

lemma filter_upt_Cons:
  assumes "filter P [0..<n] = k # rest"
  shows "k < n \<and> P k \<and> (\<forall>i<k. \<not> P i)"
proof -
  from assms obtain us vs where us: "[0..<n] = us @ k # vs" "\<forall>u\<in>set us. \<not> P u" "P k"
    by (auto simp: filter_eq_Cons_iff)
  have len: "length us < n"
    using arg_cong[OF us(1), of length] by simp
  have "[0..<n] ! length us = k" using us(1) by simp
  then have k: "k = length us" using len by simp
  have "\<forall>i<k. \<not> P i"
  proof (intro allI impI)
    fix i assume i: "i < k"
    then have "[0..<n] ! i = us ! i" using us(1) k by (simp add: nth_append)
    then have "us ! i = i" using i k len by simp
    then have "i \<in> set us" using i k by (metis nth_mem)
    then show "\<not> P i" using us(2) by blast
  qed
  then show ?thesis using k len us(3) by simp
qed

lemma where_eq_Cons:
  assumes "where_eq xs v = s # rest"
  shows "0 \<le> s \<and> nat s < length xs \<and> xs ! nat s = v \<and> (\<forall>i<nat s. xs ! i \<noteq> v)"
proof -
  from assms obtain k ks where f: "filter (\<lambda>i. xs ! i = v) [0..<length xs] = k # ks" and s: "s = int k"
    by (auto simp: where_eq_def)
  from filter_upt_Cons[OF f] s show ?thesis by simp
qed

lemma print_simps [simp]:
  "FIELD (print m w) = FIELD w" "SOURCE (print m w) = SOURCE w" "stdout (print m w) = stdout w @ [m]"
  by (simp_all add: print_def)

lemma updatePM_miss:
  "simbad source = None \<Longrightarrow> updatePM simbad w source = Inr (print (NotFound source) w)"
  by (simp add: updatePM_def)

lemma updatePM_no_row:
  "simbad source = Some r \<Longrightarrow> name_rows (map S_NAME (SOURCE w)) source = Inr [] \<Longrightarrow>
   updatePM simbad w source = Inl (IndexError SyncRow, print (ProperMotionFound (fst r) (snd r)) w)"
  by (simp add: updatePM_def Let_def)

text \<open>The rows that a name finds are rows of the table, and all of them are written.\<close>

lemma updatePM_name:
  assumes "simbad (Scalar (PyStr q)) = Some r"
    and "where_eq (map S_NAME (SOURCE w)) q = s0 # ss"
  shows "\<exists>tab. updatePM simbad w (Scalar (PyStr q)) =
           Inr \<lparr>FIELD = FIELD w, SOURCE = tab,
                stdout = stdout w @
                  [ProperMotionFound (fst r) (snd r),
                   CurrentProperMotion (fst (to_mas_yr (PROPER_MOTION (SOURCE w ! nat s0))))
                                       (snd (to_mas_yr (PROPER_MOTION (SOURCE w ! nat s0)))),
                   ProperMotionUpdated]\<rparr> \<and>
           length tab = length (SOURCE w) \<and>
           (\<forall>k<length (SOURCE w). tab ! k =
              (if int k \<in> set (s0 # ss) then (SOURCE w ! k)\<lparr>PROPER_MOTION := to_rad_s r\<rparr>
               else SOURCE w ! k))"
proof -
  have b: "\<forall>s\<in>set (s0 # ss). 0 \<le> s \<and> s < int (length (SOURCE w))"
    using where_eq_bounds[of _ "map S_NAME (SOURCE w)" q] assms(2) by (metis length_map)
  from putcell_pm_valid[OF b, of "to_rad_s r"] obtain tab where
    t: "putcell_pm (s0 # ss) (to_rad_s r) (SOURCE w) = Inr tab" "length tab = length (SOURCE w)"
       "\<forall>k<length (SOURCE w). tab ! k =
          (if int k \<in> set (s0 # ss) then (SOURCE w ! k)\<lparr>PROPER_MOTION := to_rad_s r\<rparr>
           else SOURCE w ! k)"
    by blast
  have s0: "s0 < int (length (SOURCE w))" using b by simp
  have "updatePM simbad w (Scalar (PyStr q)) =
           Inr \<lparr>FIELD = FIELD w, SOURCE = tab,
                stdout = stdout w @
                  [ProperMotionFound (fst r) (snd r),
                   CurrentProperMotion (fst (to_mas_yr (PROPER_MOTION (SOURCE w ! nat s0))))
                                       (snd (to_mas_yr (PROPER_MOTION (SOURCE w ! nat s0)))),
                   ProperMotionUpdated]\<rparr>"
    using assms t(1) s0 by (simp add: updatePM_def print_def Let_def del: putcell_pm.simps)
  then show ?thesis using t(2,3) by blast
qed

text \<open>
  What \<^verbatim>\<open>updatePM\<close> leaves behind, whether it returns or raises: the FIELD table as it
  was, messages of its own, and the SOURCE table either as it was or with the rows
  found by line 128 written as far as the table tool got.
\<close>

lemma updatePM_final:
  "\<exists>out tab. final (updatePM simbad w source) =
       \<lparr>FIELD = FIELD w, SOURCE = tab, stdout = stdout w @ out\<rparr> \<and>
     (\<forall>v. DidNotFindSource v \<notin> set out) \<and> (\<forall>j. CalculatingNewDirection j \<notin> set out) \<and>
     (tab = SOURCE w \<or>
      (\<exists>r rows. simbad source = Some r \<and>
         name_rows (map S_NAME (SOURCE w)) source = Inr rows \<and>
         tab = final (putcell_pm rows (to_rad_s r) (SOURCE w))))"
proof (cases "simbad source")
  case None
  have "final (updatePM simbad w source) =
      \<lparr>FIELD = FIELD w, SOURCE = SOURCE w, stdout = stdout w @ [NotFound source]\<rparr>"
    using None by (simp add: updatePM_def print_def)
  then show ?thesis by (intro exI[of _ "[NotFound source]"] exI[of _ "SOURCE w"]) simp
next
  case (Some r)
  let ?found = "ProperMotionFound (fst r) (snd r)"
  have early: ?thesis
    if "final (updatePM simbad w source) = print ?found w"
  proof -
    have "final (updatePM simbad w source) =
      \<lparr>FIELD = FIELD w, SOURCE = SOURCE w, stdout = stdout w @ [?found]\<rparr>"
      using that by (simp add: print_def)
    then show ?thesis by (intro exI[of _ "[?found]"] exI[of _ "SOURCE w"]) simp
  qed
  show ?thesis
  proof (cases "name_rows (map S_NAME (SOURCE w)) source")
    case (Inl e)
    then have "final (updatePM simbad w source) = print ?found w"
      using Some by (simp add: updatePM_def Let_def)
    then show ?thesis by (rule early)
  next
    case (Inr rows)
    show ?thesis
    proof (cases "rows = [] \<or> \<not> hd rows < int (length (SOURCE w))")
      case True
      then have "final (updatePM simbad w source) = print ?found w"
        using Some Inr by (cases rows) (auto simp: updatePM_def Let_def)
      then show ?thesis by (rule early)
    next
      case False
      then obtain s0 ss where rows: "rows = s0 # ss" and s0: "s0 < int (length (SOURCE w))"
        by (cases rows) auto
      let ?cur = "CurrentProperMotion (fst (to_mas_yr (PROPER_MOTION (SOURCE w ! nat s0))))
                                      (snd (to_mas_yr (PROPER_MOTION (SOURCE w ! nat s0))))"
      let ?put = "putcell_pm rows (to_rad_s r) (SOURCE w)"
      have "\<exists>out. final (updatePM simbad w source) =
                \<lparr>FIELD = FIELD w, SOURCE = final ?put, stdout = stdout w @ out\<rparr> \<and>
              (\<forall>v. DidNotFindSource v \<notin> set out) \<and> (\<forall>j. CalculatingNewDirection j \<notin> set out)"
      proof (cases ?put)
        case (Inl f)
        obtain e tab where f: "f = (e, tab)" by (cases f)
        have "final (updatePM simbad w source) =
            \<lparr>FIELD = FIELD w, SOURCE = final ?put, stdout = stdout w @ [?found, ?cur]\<rparr>"
          using Some Inr rows s0 Inl f
          by (simp add: updatePM_def print_def Let_def del: putcell_pm.simps)
        then show ?thesis by (intro exI[of _ "[?found, ?cur]"]) simp
      next
        case (Inr tab)
        have "final (updatePM simbad w source) =
            \<lparr>FIELD = FIELD w, SOURCE = final ?put,
             stdout = stdout w @ [?found, ?cur, ProperMotionUpdated]\<rparr>"
          using Some \<open>name_rows (map S_NAME (SOURCE w)) source = Inr rows\<close> rows s0 Inr
          by (simp add: updatePM_def print_def Let_def del: putcell_pm.simps)
        then show ?thesis by (intro exI[of _ "[?found, ?cur, ProperMotionUpdated]"]) simp
      qed
      then show ?thesis using Some Inr by blast
    qed
  qed
qed

lemma updatePM_FIELD: "FIELD (final (updatePM simbad w source)) = FIELD w"
  using updatePM_final[of simbad w source] by auto

lemma updatePM_stdout:
  "DidNotFindSource v \<notin> set (stdout w) \<Longrightarrow>
     DidNotFindSource v \<notin> set (stdout (final (updatePM simbad w source)))"
  "CalculatingNewDirection j \<notin> set (stdout w) \<Longrightarrow>
     CalculatingNewDirection j \<notin> set (stdout (final (updatePM simbad w source)))"
  using updatePM_final[of simbad w source] by auto

lemma updatePM_SOURCE_length:
  "length (SOURCE (final (updatePM simbad w source))) = length (SOURCE w)"
proof -
  from updatePM_final[of simbad w source] obtain out tab where
    f: "final (updatePM simbad w source) = \<lparr>FIELD = FIELD w, SOURCE = tab, stdout = stdout w @ out\<rparr>"
    and t: "tab = SOURCE w \<or>
      (\<exists>r rows. simbad source = Some r \<and>
         name_rows (map S_NAME (SOURCE w)) source = Inr rows \<and>
         tab = final (putcell_pm rows (to_rad_s r) (SOURCE w)))"
    by blast
  from t have "length tab = length (SOURCE w)"
  proof
    assume "tab = SOURCE w"
    then show ?thesis by simp
  next
    assume "\<exists>r rows. simbad source = Some r \<and>
         name_rows (map S_NAME (SOURCE w)) source = Inr rows \<and>
         tab = final (putcell_pm rows (to_rad_s r) (SOURCE w))"
    then obtain r rows where "tab = final (putcell_pm rows (to_rad_s r) (SOURCE w))" by blast
    then show ?thesis using putcell_pm_frame[of rows "to_rad_s r" "SOURCE w"] by simp
  qed
  then show ?thesis using f by simp
qed

lemma updatePM_SOURCE_nth:
  assumes "k < length (SOURCE w)"
  shows "SOURCE (final (updatePM simbad w source)) ! k = SOURCE w ! k \<or>
         (\<exists>r rows. simbad source = Some r \<and>
            name_rows (map S_NAME (SOURCE w)) source = Inr rows \<and> int k \<in> set rows \<and>
            SOURCE (final (updatePM simbad w source)) ! k = (SOURCE w ! k)\<lparr>PROPER_MOTION := to_rad_s r\<rparr>)"
proof -
  from updatePM_final[of simbad w source] obtain out tab where
    f: "final (updatePM simbad w source) = \<lparr>FIELD = FIELD w, SOURCE = tab, stdout = stdout w @ out\<rparr>"
    and t: "tab = SOURCE w \<or>
      (\<exists>r rows. simbad source = Some r \<and>
         name_rows (map S_NAME (SOURCE w)) source = Inr rows \<and>
         tab = final (putcell_pm rows (to_rad_s r) (SOURCE w)))"
    by blast
  have src: "SOURCE (final (updatePM simbad w source)) = tab" using f by simp
  from t show ?thesis
  proof
    assume "tab = SOURCE w"
    then show ?thesis using src by simp
  next
    assume "\<exists>r rows. simbad source = Some r \<and>
         name_rows (map S_NAME (SOURCE w)) source = Inr rows \<and>
         tab = final (putcell_pm rows (to_rad_s r) (SOURCE w))"
    then obtain r rows where r: "simbad source = Some r"
        "name_rows (map S_NAME (SOURCE w)) source = Inr rows"
        "tab = final (putcell_pm rows (to_rad_s r) (SOURCE w))"
      by blast
    from putcell_pm_frame[of rows "to_rad_s r" "SOURCE w"] assms
    have "tab ! k = SOURCE w ! k \<or>
          int k \<in> set rows \<and> tab ! k = (SOURCE w ! k)\<lparr>PROPER_MOTION := to_rad_s r\<rparr>"
      unfolding r(3) by blast
    then show ?thesis using r(1,2) src by auto
  qed
qed

text \<open>
  Claim C5.  When the catalog matches the queried name, \<^verbatim>\<open>updatePM\<close> prints the fetched
  proper motion (mas/yr); then, when some SOURCE row has the name, it prints the proper
  motion stored in the first such row (converted to mas/yr), writes the fetched value
  divided by \<open>1000 * ARCSEC_PER_RAD * SECONDS_PER_YEAR\<close> into the \<^verbatim>\<open>PROPER_MOTION\<close>
  cell of every row of that name, leaves every other cell as it was and prints that
  the proper motion was updated.  When no SOURCE row has the name, line 129 raises
  \<^verbatim>\<open>IndexError\<close> after the first message, and nothing is written.
\<close>

theorem updatePM_overwrites:
  assumes "simbad (Scalar (PyStr q)) = Some (pmra, pmdec)"
  shows "if q \<in> set (map S_NAME (SOURCE w))
         then (\<exists>k w'. k < length (SOURCE w) \<and> S_NAME (SOURCE w ! k) = q \<and>
                 (\<forall>i<k. S_NAME (SOURCE w ! i) \<noteq> q) \<and>
                 updatePM simbad w (Scalar (PyStr q)) = Inr w' \<and>
                 stdout w' = stdout w @
                   [ProperMotionFound pmra pmdec,
                    CurrentProperMotion
                      (fst (PROPER_MOTION (SOURCE w ! k)) * (1000 * ARCSEC_PER_RAD * SECONDS_PER_YEAR))
                      (snd (PROPER_MOTION (SOURCE w ! k)) * (1000 * ARCSEC_PER_RAD * SECONDS_PER_YEAR)),
                    ProperMotionUpdated] \<and>
                 FIELD w' = FIELD w \<and> length (SOURCE w') = length (SOURCE w) \<and>
                 (\<forall>i<length (SOURCE w). SOURCE w' ! i =
                    (if S_NAME (SOURCE w ! i) = q
                     then (SOURCE w ! i)\<lparr>PROPER_MOTION :=
                            (pmra / (1000 * ARCSEC_PER_RAD * SECONDS_PER_YEAR),
                             pmdec / (1000 * ARCSEC_PER_RAD * SECONDS_PER_YEAR))\<rparr>
                     else SOURCE w ! i)))
         else updatePM simbad w (Scalar (PyStr q)) =
                Inl (IndexError SyncRow, print (ProperMotionFound pmra pmdec) w)"
proof (cases "where_eq (map S_NAME (SOURCE w)) q")
  case Nil
  then have "q \<notin> set (map S_NAME (SOURCE w))" by (simp add: where_eq_empty_iff)
  moreover have "updatePM simbad w (Scalar (PyStr q)) =
      Inl (IndexError SyncRow, print (ProperMotionFound pmra pmdec) w)"
    using updatePM_no_row[of simbad "Scalar (PyStr q)" "(pmra, pmdec)" w] assms Nil by simp
  ultimately show ?thesis by simp
next
  case (Cons s0 ss)
  let ?names = "map S_NAME (SOURCE w)"
  let ?source = "Scalar (PyStr q)"
  have mem: "q \<in> set ?names" using Cons where_eq_empty_iff[of ?names q] by simp
  from where_eq_Cons[OF Cons]
  have k: "nat s0 < length (SOURCE w)" "S_NAME (SOURCE w ! nat s0) = q"
    "\<forall>i<nat s0. S_NAME (SOURCE w ! i) \<noteq> q"
    by auto
  from updatePM_name[of simbad q "(pmra, pmdec)" w s0 ss, OF assms Cons] obtain tab where
    run0: "updatePM simbad w ?source =
           Inr \<lparr>FIELD = FIELD w, SOURCE = tab,
                stdout = stdout w @
                  [ProperMotionFound pmra pmdec,
                   CurrentProperMotion (fst (to_mas_yr (PROPER_MOTION (SOURCE w ! nat s0))))
                                       (snd (to_mas_yr (PROPER_MOTION (SOURCE w ! nat s0)))),
                   ProperMotionUpdated]\<rparr>"
    and tlen: "length tab = length (SOURCE w)"
    and tnth: "\<forall>k<length (SOURCE w). tab ! k =
              (if int k \<in> set (s0 # ss)
               then (SOURCE w ! k)\<lparr>PROPER_MOTION := to_rad_s (pmra, pmdec)\<rparr>
               else SOURCE w ! k)"
    by auto
  define w' where "w' = final (updatePM simbad w ?source)"
  have run: "updatePM simbad w ?source = Inr w'"
    unfolding w'_def using run0 by simp
  have out: "stdout w' = stdout w @
       [ProperMotionFound pmra pmdec,
        CurrentProperMotion
          (fst (PROPER_MOTION (SOURCE w ! nat s0)) * (1000 * ARCSEC_PER_RAD * SECONDS_PER_YEAR))
          (snd (PROPER_MOTION (SOURCE w ! nat s0)) * (1000 * ARCSEC_PER_RAD * SECONDS_PER_YEAR)),
        ProperMotionUpdated]"
    unfolding w'_def using run0 by (simp add: to_mas_yr_def MAS_YR_PER_RAD_S_def)
  have fld: "FIELD w' = FIELD w" unfolding w'_def by (rule updatePM_FIELD)
  have src: "SOURCE w' = tab" unfolding w'_def using run0 by simp
  have len: "length (SOURCE w') = length (SOURCE w)" using src tlen by simp
  have nth: "SOURCE w' ! i =
        (if S_NAME (SOURCE w ! i) = q
         then (SOURCE w ! i)\<lparr>PROPER_MOTION :=
                (pmra / (1000 * ARCSEC_PER_RAD * SECONDS_PER_YEAR),
                 pmdec / (1000 * ARCSEC_PER_RAD * SECONDS_PER_YEAR))\<rparr>
         else SOURCE w ! i)" if i: "i < length (SOURCE w)" for i
  proof -
    have "SOURCE w' ! i = (if int i \<in> set (s0 # ss)
          then (SOURCE w ! i)\<lparr>PROPER_MOTION := to_rad_s (pmra, pmdec)\<rparr> else SOURCE w ! i)"
      using tnth i src by simp
    also have "int i \<in> set (s0 # ss) \<longleftrightarrow> S_NAME (SOURCE w ! i) = q"
      using set_where_eq[of ?names q] Cons i by auto
    finally show ?thesis by (simp add: to_rad_s_def MAS_YR_PER_RAD_S_def)
  qed
  show ?thesis using mem k run out fld len nth by (simp only: if_True) blast
qed

theorem updatePM_overwrites_witness:
  "\<exists>w'. updatePM (\<lambda>v. Some (108, -50)) \<lparr>FIELD = [], SOURCE = demo_sources, stdout = []\<rparr>
            (Scalar (PyStr ''hr8799'')) = Inr w' \<and>
        map S_NAME (SOURCE w') = [''hr8799'', ''other'', ''hr8799''] \<and>
        map PROPER_MOTION (SOURCE w') =
          [(108 / (1000 * ARCSEC_PER_RAD * SECONDS_PER_YEAR), -50 / (1000 * ARCSEC_PER_RAD * SECONDS_PER_YEAR)),
           (5, 6),
           (108 / (1000 * ARCSEC_PER_RAD * SECONDS_PER_YEAR), -50 / (1000 * ARCSEC_PER_RAD * SECONDS_PER_YEAR))] \<and>
        stdout w' = [ProperMotionFound 108 (-50), CurrentProperMotion 0 0, ProperMotionUpdated]"
proof -
  let ?w = "\<lparr>FIELD = [], SOURCE = demo_sources, stdout = []\<rparr>"
  have m: "''hr8799'' \<in> set (map S_NAME (SOURCE ?w))"
    by (simp add: demo_sources_def)
  from updatePM_overwrites [of "\<lambda>v. Some (108, -50)" "''hr8799''" 108 "-50" ?w, OF refl] m
  obtain k w' where k: "k < length (SOURCE ?w)" "S_NAME (SOURCE ?w ! k) = ''hr8799''"
      "\<forall>i<k. S_NAME (SOURCE ?w ! i) \<noteq> ''hr8799''"
    and run: "updatePM (\<lambda>v. Some (108, -50)) ?w (Scalar (PyStr ''hr8799'')) = Inr w'"
    and out: "stdout w' = stdout ?w @
       [ProperMotionFound 108 (-50),
        CurrentProperMotion
          (fst (PROPER_MOTION (SOURCE ?w ! k)) * (1000 * ARCSEC_PER_RAD * SECONDS_PER_YEAR))
          (snd (PROPER_MOTION (SOURCE ?w ! k)) * (1000 * ARCSEC_PER_RAD * SECONDS_PER_YEAR)),
        ProperMotionUpdated]"
    and len: "length (SOURCE w') = length (SOURCE ?w)"
    and nth: "\<forall>i<length (SOURCE ?w). SOURCE w' ! i =
        (if S_NAME (SOURCE ?w ! i) = ''hr8799''
         then (SOURCE ?w ! i)\<lparr>PROPER_MOTION :=
                (108 / (1000 * ARCSEC_PER_RAD * SECONDS_PER_YEAR),
                 -50 / (1000 * ARCSEC_PER_RAD * SECONDS_PER_YEAR))\<rparr>
         else SOURCE ?w ! i)"
    by (simp only: if_True) blast
  have k0: "k = 0"
  proof (rule ccontr)
    assume "k \<noteq> 0"
    then have "0 < k" by simp
    with k(3) have "S_NAME (SOURCE ?w ! 0) \<noteq> ''hr8799''" by blast
    then show False by (simp add: demo_sources_def)
  qed
  have l3: "length (SOURCE w') = 3" using len by (simp add: demo_sources_def)
  then obtain a b c where abc: "SOURCE w' = [a, b, c]"
    by (cases "SOURCE w'"; simp; rename_tac x xs; case_tac xs; simp; rename_tac y ys; case_tac ys; simp)
  have "SOURCE w' ! 0 = (demo_sources ! 0)\<lparr>PROPER_MOTION :=
                (108 / (1000 * ARCSEC_PER_RAD * SECONDS_PER_YEAR),
                 -50 / (1000 * ARCSEC_PER_RAD * SECONDS_PER_YEAR))\<rparr>"
    using nth[rule_format, of 0] by (simp add: demo_sources_def)
  moreover have "SOURCE w' ! 1 = demo_sources ! 1"
    using nth[rule_format, of 1] by (simp add: demo_sources_def)
  moreover have "SOURCE w' ! 2 = (demo_sources ! 2)\<lparr>PROPER_MOTION :=
                (108 / (1000 * ARCSEC_PER_RAD * SECONDS_PER_YEAR),
                 -50 / (1000 * ARCSEC_PER_RAD * SECONDS_PER_YEAR))\<rparr>"
    using nth[rule_format, of 2] by (simp add: demo_sources_def)
  ultimately have rows: "map S_NAME (SOURCE w') = [''hr8799'', ''other'', ''hr8799'']"
    "map PROPER_MOTION (SOURCE w') =
          [(108 / (1000 * ARCSEC_PER_RAD * SECONDS_PER_YEAR), -50 / (1000 * ARCSEC_PER_RAD * SECONDS_PER_YEAR)),
           (5, 6),
           (108 / (1000 * ARCSEC_PER_RAD * SECONDS_PER_YEAR), -50 / (1000 * ARCSEC_PER_RAD * SECONDS_PER_YEAR))]"
    unfolding abc by (simp_all add: demo_sources_def)
  have st: "stdout w' = [ProperMotionFound 108 (-50), CurrentProperMotion 0 0, ProperMotionUpdated]"
    using out k0 by (simp add: demo_sources_def)
  show ?thesis
    by (rule exI[of _ w']) (simp only: run rows st simp_thms)
qed

section \<open>The elapsed seconds\<close>

lemma trunc_of_int [simp]: "trunc (of_int k) = k"
  by (simp add: trunc_def)

lemma trunc_bounds: "\<bar>real_of_int (trunc x)\<bar> \<le> \<bar>x\<bar> \<and> \<bar>x - real_of_int (trunc x)\<bar> < 1"
  unfolding trunc_def by (cases "x < 0") (simp_all, linarith+)

lemma int64_store_Inr:
  assumes "int64_store x = Inr s"
  shows "s = trunc x \<and> - (2 ^ 63) \<le> s \<and> s < 2 ^ 63"
  using assms by (auto simp: int64_store_def Let_def split: if_splits)

lemma int64_store_in_range:
  assumes "\<bar>x\<bar> < 2 ^ 63"
  shows "int64_store x = Inr (trunc x)"
proof -
  have "\<bar>real_of_int (trunc x)\<bar> < 2 ^ 63"
    using trunc_bounds[of x] assms by linarith
  then have "\<bar>real_of_int (trunc x)\<bar> < real_of_int (2 ^ 63)" by simp
  then have "\<bar>trunc x\<bar> < 2 ^ 63"
    by (metis of_int_abs of_int_less_iff)
  then have "- (2 ^ 63) \<le> trunc x \<and> trunc x < 2 ^ 63" by linarith
  then show ?thesis by (simp add: int64_store_def Let_def)
qed

lemma store_each_Inr:
  assumes "store_each xs = Inr ss"
  shows "length ss = length xs \<and> (\<forall>i<length xs. ss ! i = trunc (xs ! i))"
  using assms
proof (induction xs arbitrary: ss)
  case Nil
  then show ?case by simp
next
  case (Cons x xs)
  from Cons.prems obtain s rest where s: "int64_store x = Inr s" and r: "store_each xs = Inr rest"
      and ss: "ss = s # rest"
    by (auto split: sum.splits)
  have "s = trunc x" using int64_store_Inr[OF s] by simp
  moreover note Cons.IH[OF r]
  ultimately show ?case unfolding ss by (auto simp: nth_Cons split: nat.splits)
qed

lemma store_each_in_range:
  assumes "\<forall>x\<in>set xs. \<bar>x\<bar> < 2 ^ 63"
  shows "store_each xs = Inr (map trunc xs)"
  using assms by (induction xs) (simp_all add: int64_store_in_range)

lemma seconds_of_float:
  "seconds_of (Scalar (PyFloat E)) years ts = store_each (map (\<lambda>T. E - T) ts)"
  by (simp add: seconds_of_def)

lemma seconds_of_not_float:
  assumes "\<forall>t. newtime \<noteq> Scalar (PyFloat t)"
  shows "seconds_of newtime years ts =
           (if py_eq_zero years then store_each (map (\<lambda>T. T - 4453401600) ts)
            else case py_times_float years SECONDS_PER_YEAR of
                   Inl e \<Rightarrow> Inl e
                 | Inr v \<Rightarrow> store_each (map (\<lambda>T. v) ts))"
  using assms by (auto simp: seconds_of_def split: pyval.splits scalar.splits)

text \<open>An integer \<^verbatim>\<open>newtime\<close> is no float: it is passed over as \<^verbatim>\<open>None\<close> is.\<close>

lemma seconds_of_int_newtime:
  "seconds_of (Scalar (PyInt e)) years ts = seconds_of (Scalar PyNone) years ts"
  by (simp add: seconds_of_def)

lemma seconds_of_length: "seconds_of newtime years ts = Inr secs \<Longrightarrow> length secs = length ts"
proof (cases "\<exists>t. newtime = Scalar (PyFloat t)")
  case True
  assume "seconds_of newtime years ts = Inr secs"
  then show ?thesis using True store_each_Inr[of _ secs] by (auto simp: seconds_of_float)
next
  case False
  assume a: "seconds_of newtime years ts = Inr secs"
  from False have nf: "\<forall>t. newtime \<noteq> Scalar (PyFloat t)" by simp
  show ?thesis
    using a store_each_Inr[of _ secs]
    unfolding seconds_of_not_float[OF nf]
    by (auto split: if_splits sum.splits)
qed

text \<open>
  The cell of a field whose recorded time is \<open>ts ! i\<close>, in each of the three modes:
  the elapsed time of the mode, truncated toward zero.
\<close>

lemma seconds_of_nth:
  assumes "seconds_of newtime years ts = Inr secs" and "i < length ts"
  shows "(\<forall>E. newtime = Scalar (PyFloat E) \<longrightarrow> secs ! i = trunc (E - ts ! i)) \<and>
         ((\<forall>E. newtime \<noteq> Scalar (PyFloat E)) \<longrightarrow>
            (\<forall>Y. years = Scalar (PyFloat Y) \<and> Y \<noteq> 0 \<longrightarrow> secs ! i = trunc (Y * 31556925)) \<and>
            (\<forall>n. years = Scalar (PyInt n) \<and> n \<noteq> 0 \<longrightarrow> secs ! i = trunc (real_of_int n * 31556925)) \<and>
            (py_eq_zero years \<longrightarrow> secs ! i = trunc (ts ! i - 4453401600)))"
proof (cases "\<exists>t. newtime = Scalar (PyFloat t)")
  case True
  then obtain E where E: "newtime = Scalar (PyFloat E)" by blast
  have "store_each (map (\<lambda>T. E - T) ts) = Inr secs" using assms(1) E by (simp add: seconds_of_float)
  from store_each_Inr[OF this] assms(2) have "secs ! i = trunc (E - ts ! i)" by simp
  then show ?thesis using E by simp
next
  case False
  then have nf: "\<forall>t. newtime \<noteq> Scalar (PyFloat t)" by simp
  note eq = assms(1)[unfolded seconds_of_not_float[OF nf]]
  have z: "secs ! i = trunc (ts ! i - 4453401600)" if "py_eq_zero years"
  proof -
    have "store_each (map (\<lambda>T. T - 4453401600) ts) = Inr secs" using eq that by simp
    from store_each_Inr[OF this] assms(2) show ?thesis by simp
  qed
  have y: "secs ! i = trunc (Y * 31556925)" if "years = Scalar (PyFloat Y)" "Y \<noteq> 0" for Y
  proof -
    have "store_each (map (\<lambda>T. Y * 31556925) ts) = Inr secs"
      using eq that by (simp add: SECONDS_PER_YEAR_def)
    from store_each_Inr[OF this] assms(2) show ?thesis by simp
  qed
  have n: "secs ! i = trunc (real_of_int n * 31556925)" if "years = Scalar (PyInt n)" "n \<noteq> 0" for n
  proof -
    have "store_each (map (\<lambda>T. real_of_int n * 31556925) ts) = Inr secs"
      using eq that by (simp add: SECONDS_PER_YEAR_def split: if_splits)
    from store_each_Inr[OF this] assms(2) show ?thesis by simp
  qed
  show ?thesis using nf z y n by blast
qed

text \<open>The array is filled when every elapsed time is within \<^verbatim>\<open>int64\<close>.\<close>

lemma seconds_of_returns:
  "\<forall>T\<in>set ts. \<bar>E - T\<bar> < 2 ^ 63 \<Longrightarrow>
     seconds_of (Scalar (PyFloat E)) years ts = Inr (map (\<lambda>T. trunc (E - T)) ts)"
  "\<forall>t. newtime \<noteq> Scalar (PyFloat t) \<Longrightarrow> py_eq_zero years \<Longrightarrow>
   \<forall>T\<in>set ts. \<bar>T - 4453401600\<bar> < 2 ^ 63 \<Longrightarrow>
     seconds_of newtime years ts = Inr (map (\<lambda>T. trunc (T - 4453401600)) ts)"
  "\<forall>t. newtime \<noteq> Scalar (PyFloat t) \<Longrightarrow> Y \<noteq> 0 \<Longrightarrow> \<bar>Y * 31556925\<bar> < 2 ^ 63 \<Longrightarrow>
     seconds_of newtime (Scalar (PyFloat Y)) ts = Inr (map (\<lambda>T. trunc (Y * 31556925)) ts)"
proof -
  show "seconds_of (Scalar (PyFloat E)) years ts = Inr (map (\<lambda>T. trunc (E - T)) ts)"
    if "\<forall>T\<in>set ts. \<bar>E - T\<bar> < 2 ^ 63"
    using store_each_in_range[of "map (\<lambda>T. E - T) ts"] that
    by (simp add: seconds_of_float comp_def)
  show "seconds_of newtime years ts = Inr (map (\<lambda>T. trunc (T - 4453401600)) ts)"
    if "\<forall>t. newtime \<noteq> Scalar (PyFloat t)" "py_eq_zero years" "\<forall>T\<in>set ts. \<bar>T - 4453401600\<bar> < 2 ^ 63"
    using store_each_in_range[of "map (\<lambda>T. T - 4453401600) ts"] that
    by (simp add: seconds_of_not_float comp_def)
  show "seconds_of newtime (Scalar (PyFloat Y)) ts = Inr (map (\<lambda>T. trunc (Y * 31556925)) ts)"
    if "\<forall>t. newtime \<noteq> Scalar (PyFloat t)" "Y \<noteq> 0" "\<bar>Y * 31556925\<bar> < 2 ^ 63"
    using store_each_in_range[of "map (\<lambda>T. Y * 31556925) ts"] that
    by (simp add: seconds_of_not_float comp_def SECONDS_PER_YEAR_def)
qed

section \<open>The direction loop\<close>

lemma dircol_fun_upd:
  "f(REFERENCE_DIR := g REFERENCE_DIR, PHASE_DIR := g PHASE_DIR, DELAY_DIR := g DELAY_DIR) = g"
proof
  fix d show "(f(REFERENCE_DIR := g REFERENCE_DIR, PHASE_DIR := g PHASE_DIR, DELAY_DIR := g DELAY_DIR)) d = g d"
    by (cases d) simp_all
qed

lemma correct_roles_row:
  assumes "0 \<le> j" and "j < int (length tab)"
  shows "correct_roles [REFERENCE_DIR, PHASE_DIR, DELAY_DIR] pm s j tab =
           Inr (tab[nat j := shift_row pm s (tab ! nat j)])"
proof -
  have n: "nat j < length tab" using assms by simp
  let ?g = "\<lambda>direct. new_direction pm s (F_DIR (tab ! nat j) direct)"
  have "correct_roles [REFERENCE_DIR, PHASE_DIR, DELAY_DIR] pm s j tab =
      Inr (tab[nat j := (tab ! nat j)\<lparr>F_DIR := (F_DIR (tab ! nat j))
         (REFERENCE_DIR := ?g REFERENCE_DIR, PHASE_DIR := ?g PHASE_DIR, DELAY_DIR := ?g DELAY_DIR)\<rparr>])"
    using assms n by (simp add: getcell_def putcell_def)
  moreover have "(F_DIR (tab ! nat j))
         (REFERENCE_DIR := ?g REFERENCE_DIR, PHASE_DIR := ?g PHASE_DIR, DELAY_DIR := ?g DELAY_DIR) = ?g"
    by (rule dircol_fun_upd)
  ultimately show ?thesis by (simp only: shift_row_def)
qed

lemma correct_roles_no_row:
  assumes "\<not> (0 \<le> j \<and> j < int (length tab))"
  shows "correct_roles (direct # rest) pm s j tab = Inl (RuntimeError, tab)"
  using assms by (auto simp: getcell_def)

lemma update_fields_step:
  assumes "0 \<le> j" and "j < int (length (FIELD w))"
  shows "update_fields ((j, s) # rest) pm w =
           update_fields rest pm
             ((print (CalculatingNewDirection j) w)
                \<lparr>FIELD := (FIELD w)[nat j := shift_row pm s (FIELD w ! nat j)]\<rparr>)"
  using correct_roles_row[OF assms, of pm s]
  by (simp add: Let_def del: correct_roles.simps)

lemma update_fields_stop:
  assumes "\<not> (0 \<le> j \<and> j < int (length (FIELD w)))"
  shows "update_fields ((j, s) # rest) pm w =
           Inl (RuntimeError, print (CalculatingNewDirection j) w)"
proof -
  have "correct_roles [REFERENCE_DIR, PHASE_DIR, DELAY_DIR] pm s j (FIELD w) = Inl (RuntimeError, FIELD w)"
    using assms by (rule correct_roles_no_row)
  then show ?thesis by (simp add: Let_def print_def del: correct_roles.simps)
qed

lemma shift_row_columns [simp]:
  "F_NAME (shift_row pm s row) = F_NAME row"
  "F_SOURCE_ID (shift_row pm s row) = F_SOURCE_ID row"
  "F_TIME (shift_row pm s row) = F_TIME row"
  "F_DIR (shift_row pm s row) direct = new_direction pm s (F_DIR row direct)"
  by (simp_all add: shift_row_def)

text \<open>What the loop leaves alone, whether it finishes or raises.\<close>

lemma update_fields_frame:
  "SOURCE (final (update_fields js pm w)) = SOURCE w \<and>
   length (FIELD (final (update_fields js pm w))) = length (FIELD w) \<and>
   (\<forall>k<length (FIELD w).
      F_NAME (FIELD (final (update_fields js pm w)) ! k) = F_NAME (FIELD w ! k) \<and>
      F_SOURCE_ID (FIELD (final (update_fields js pm w)) ! k) = F_SOURCE_ID (FIELD w ! k) \<and>
      F_TIME (FIELD (final (update_fields js pm w)) ! k) = F_TIME (FIELD w ! k) \<and>
      (int k \<notin> fst ` set js \<longrightarrow> FIELD (final (update_fields js pm w)) ! k = FIELD w ! k))"
proof (induction js arbitrary: w)
  case Nil
  show ?case by simp
next
  case (Cons a js)
  obtain j s where a: "a = (j, s)" by (cases a)
  show ?case
  proof (cases "0 \<le> j \<and> j < int (length (FIELD w))")
    case False
    then show ?thesis unfolding a by (simp add: update_fields_stop del: update_fields.simps)
  next
    case True
    let ?w = "(print (CalculatingNewDirection j) w)
                \<lparr>FIELD := (FIELD w)[nat j := shift_row pm s (FIELD w ! nat j)]\<rparr>"
    have step: "update_fields (a # js) pm w = update_fields js pm ?w"
      unfolding a using True by (simp add: update_fields_step del: update_fields.simps)
    have src: "SOURCE ?w = SOURCE w" and len: "length (FIELD ?w) = length (FIELD w)" by simp_all
    have row: "F_NAME (FIELD ?w ! k) = F_NAME (FIELD w ! k) \<and>
               F_SOURCE_ID (FIELD ?w ! k) = F_SOURCE_ID (FIELD w ! k) \<and>
               F_TIME (FIELD ?w ! k) = F_TIME (FIELD w ! k) \<and>
               (int k \<noteq> j \<longrightarrow> FIELD ?w ! k = FIELD w ! k)" if "k < length (FIELD w)" for k
      using that True by (cases "k = nat j") auto
    show ?thesis
      unfolding step using Cons.IH[of ?w] src len row
      by (simp add: a)
  qed
qed

lemma update_fields_stdout:
  "update_fields js pm w = Inr w' \<Longrightarrow> stdout w' = stdout w @ map (CalculatingNewDirection \<circ> fst) js"
proof (induction js arbitrary: w)
  case Nil
  then show ?case by simp
next
  case (Cons a js)
  obtain j s where a: "a = (j, s)" by (cases a)
  show ?case
  proof (cases "0 \<le> j \<and> j < int (length (FIELD w))")
    case False
    then show ?thesis using Cons.prems unfolding a
      by (simp add: update_fields_stop del: update_fields.simps)
  next
    case True
    then show ?thesis using Cons.prems Cons.IH unfolding a
      by (simp add: update_fields_step del: update_fields.simps)
  qed
qed

lemma update_fields_append:
  assumes "update_fields (as @ bs) pm w = Inr w'"
  shows "\<exists>w1. update_fields as pm w = Inr w1 \<and> update_fields bs pm w1 = Inr w'"
  using assms
proof (induction as arbitrary: w)
  case Nil
  then show ?case by simp
next
  case (Cons a as)
  obtain j s where a: "a = (j, s)" by (cases a)
  show ?case
  proof (cases "0 \<le> j \<and> j < int (length (FIELD w))")
    case False
    then show ?thesis using Cons.prems unfolding a
      by (simp add: update_fields_stop del: update_fields.simps)
  next
    case True
    then show ?thesis using Cons.prems Cons.IH unfolding a
      by (simp add: update_fields_step del: update_fields.simps)
  qed
qed

lemma update_fields_keeps_row:
  assumes "update_fields js pm w = Inr w'" and "k < length (FIELD w)" and "int k \<notin> fst ` set js"
  shows "FIELD w' ! k = FIELD w ! k"
  using update_fields_frame[of js pm w] assms by simp

lemma update_fields_length:
  assumes "update_fields js pm w = Inr w'"
  shows "length (FIELD w') = length (FIELD w)"
  using update_fields_frame[of js pm w] assms by simp

text \<open>A field listed once ends with its row moved once.\<close>

lemma update_fields_once:
  assumes run: "update_fields js pm w = Inr w'"
    and i: "i < length js" and ji: "js ! i = (j, s)"
    and once: "\<forall>i'<length js. i' \<noteq> i \<longrightarrow> fst (js ! i') \<noteq> j"
  shows "0 \<le> j \<and> j < int (length (FIELD w)) \<and> FIELD w' ! nat j = shift_row pm s (FIELD w ! nat j)"
proof -
  let ?as = "take i js" and ?bs = "drop (Suc i) js"
  have split: "js = ?as @ (j, s) # ?bs" using i ji by (metis id_take_nth_drop)
  have ja: "j \<notin> fst ` set ?as"
  proof
    assume "j \<in> fst ` set ?as"
    then obtain i' where "i' < length ?as" "fst (?as ! i') = j"
      by (auto simp: in_set_conv_nth)
    then have "i' < i" "fst (js ! i') = j" using i by simp_all
    with once i show False by auto
  qed
  have jb: "j \<notin> fst ` set ?bs"
  proof
    assume "j \<in> fst ` set ?bs"
    then obtain i' where i': "i' < length ?bs" "fst (?bs ! i') = j"
      by (auto simp: in_set_conv_nth)
    then have "Suc i + i' < length js" "fst (js ! (Suc i + i')) = j" using i by simp_all
    with once show False by auto
  qed
  from run split obtain w1 where w1: "update_fields ?as pm w = Inr w1"
      and rest: "update_fields ((j, s) # ?bs) pm w1 = Inr w'"
    using update_fields_append[of ?as "(j, s) # ?bs" pm w w'] by auto
  have len1: "length (FIELD w1) = length (FIELD w)" using w1 by (rule update_fields_length)
  have valid: "0 \<le> j \<and> j < int (length (FIELD w1))"
  proof (rule ccontr)
    assume "\<not> ?thesis"
    then show False using rest by (simp add: update_fields_stop del: update_fields.simps)
  qed
  let ?w2 = "(print (CalculatingNewDirection j) w1)
                \<lparr>FIELD := (FIELD w1)[nat j := shift_row pm s (FIELD w1 ! nat j)]\<rparr>"
  have rest2: "update_fields ?bs pm ?w2 = Inr w'"
    using rest valid by (simp add: update_fields_step del: update_fields.simps)
  have nj: "nat j < length (FIELD w)" "int (nat j) = j" using valid len1 by auto
  have "FIELD w1 ! nat j = FIELD w ! nat j"
    using update_fields_keeps_row[OF w1 nj(1)] ja nj(2) by simp
  moreover have "FIELD w' ! nat j = FIELD ?w2 ! nat j"
    using update_fields_keeps_row[OF rest2, of "nat j"] jb nj len1 by simp
  moreover have "FIELD ?w2 ! nat j = shift_row pm s (FIELD w1 ! nat j)"
    using nj len1 by simp
  ultimately show ?thesis using valid len1 by simp
qed

text \<open>A loop that finishes has met rows of the table only.\<close>

lemma update_fields_Inr_valid:
  assumes "update_fields js pm w = Inr w'"
  shows "\<forall>j\<in>fst ` set js. 0 \<le> j \<and> j < int (length (FIELD w))"
  using assms
proof (induction js arbitrary: w)
  case Nil
  show ?case by simp
next
  case (Cons a js)
  obtain j s where a: "a = (j, s)" by (cases a)
  have v: "0 \<le> j \<and> j < int (length (FIELD w))"
  proof (rule ccontr)
    assume "\<not> ?thesis"
    then show False using Cons.prems unfolding a
      by (simp add: update_fields_stop del: update_fields.simps)
  qed
  let ?w = "(print (CalculatingNewDirection j) w)
                \<lparr>FIELD := (FIELD w)[nat j := shift_row pm s (FIELD w ! nat j)]\<rparr>"
  have "update_fields js pm ?w = Inr w'"
    using Cons.prems v unfolding a by (simp add: update_fields_step del: update_fields.simps)
  from Cons.IH[OF this] have "\<forall>j\<in>fst ` set js. 0 \<le> j \<and> j < int (length (FIELD w))" by simp
  then show ?case using v a by simp
qed

section \<open>correctForPM\<close>

lemma copytree_simps [simp]:
  "FIELD (copytree inms) = FIELD inms" "SOURCE (copytree inms) = SOURCE inms"
  "stdout (copytree inms) = []"
  by (simp_all add: copytree_def)

lemma copy_and_sync_FIELD: "FIELD (final (copy_and_sync simbad inms field updatepm)) = FIELD inms"
  by (simp add: copy_and_sync_def updatePM_FIELD)

lemma copy_and_sync_SOURCE_length:
  "length (SOURCE (final (copy_and_sync simbad inms field updatepm))) = length (SOURCE inms)"
  by (simp add: copy_and_sync_def updatePM_SOURCE_length)

lemma copy_and_sync_SOURCE_nth:
  assumes "k < length (SOURCE inms)"
  shows "SOURCE (final (copy_and_sync simbad inms field updatepm)) ! k = SOURCE inms ! k \<or>
         (\<exists>r rows. updatepm \<and> simbad field = Some r \<and>
            name_rows (map S_NAME (SOURCE inms)) field = Inr rows \<and> int k \<in> set rows \<and>
            SOURCE (final (copy_and_sync simbad inms field updatepm)) ! k =
              (SOURCE inms ! k)\<lparr>PROPER_MOTION := to_rad_s r\<rparr>)"
proof (cases updatepm)
  case False
  then show ?thesis by (simp add: copy_and_sync_def)
next
  case True
  have "k < length (SOURCE (copytree inms))" using assms by simp
  from updatePM_SOURCE_nth[OF this, of simbad field] True
  show ?thesis by (simp add: copy_and_sync_def)
qed

lemma copy_and_sync_off: "copy_and_sync simbad inms field False = Inr (copytree inms)"
  by (simp add: copy_and_sync_def)

text \<open>The messages of \<^verbatim>\<open>updatePM\<close> are its own.\<close>

lemma copy_and_sync_stdout:
  "DidNotFindSource v \<notin> set (stdout (final (copy_and_sync simbad inms field updatepm)))"
  "CalculatingNewDirection j \<notin> set (stdout (final (copy_and_sync simbad inms field updatepm)))"
  by (simp_all add: copy_and_sync_def updatePM_stdout)

lemma update_fields_stdout_any:
  "set (stdout (final (update_fields js pm w))) \<subseteq> set (stdout w) \<union> range CalculatingNewDirection"
proof (induction js arbitrary: w)
  case Nil
  show ?case by simp
next
  case (Cons a js)
  obtain j s where a: "a = (j, s)" by (cases a)
  show ?case
  proof (cases "0 \<le> j \<and> j < int (length (FIELD w))")
    case False
    then show ?thesis unfolding a by (auto simp: update_fields_stop simp del: update_fields.simps)
  next
    case True
    let ?w = "(print (CalculatingNewDirection j) w)
                \<lparr>FIELD := (FIELD w)[nat j := shift_row pm s (FIELD w ! nat j)]\<rparr>"
    have "update_fields (a # js) pm w = update_fields js pm ?w"
      unfolding a using True by (simp add: update_fields_step del: update_fields.simps)
    then show ?thesis using Cons.IH[of ?w] by auto
  qed
qed

lemma prepare_no_index:
  "\<forall>ids. fieldid_of (map F_NAME (FIELD w)) field \<noteq> IntArr ids \<Longrightarrow>
   prepare w field years newtime = Inl (IndexError FieldRows)"
  by (cases "fieldid_of (map F_NAME (FIELD w)) field") (simp_all add: prepare_def np_take_def)

lemma prepare_empty:
  "fieldid_of (map F_NAME (FIELD w)) field = IntArr [] \<Longrightarrow>
   prepare w field years newtime = Inl (IndexError FirstSelected)"
  by (simp add: prepare_def np_take_def first_instance_def)

lemma prepare_Inr:
  assumes "prepare w field years newtime = Inr p"
  shows "fieldid_of (map F_NAME (FIELD w)) field = IntArr (fieldid p) \<and> fieldid p \<noteq> [] \<and>
         length (seconds p) = length (fieldid p) \<and>
         seconds_of newtime years
           (map (\<lambda>j. F_TIME (FIELD w ! np_row (length (FIELD w)) j)) (fieldid p)) = Inr (seconds p)"
proof (cases "\<exists>ids. fieldid_of (map F_NAME (FIELD w)) field = IntArr ids")
  case False
  then show ?thesis using assms prepare_no_index[of w field years newtime] by simp
next
  case True
  then obtain ids where IntArr: "fieldid_of (map F_NAME (FIELD w)) field = IntArr ids" by blast
  show ?thesis
  proof (cases "ids = []")
    case True
    then show ?thesis using assms IntArr by (simp add: prepare_empty)
  next
    case False
    from assms IntArr obtain ts where ts: "np_take (map F_TIME (FIELD w)) (IntArr ids) = Inr ts"
        and secs: "seconds_of newtime years ts = Inr (seconds p)" and ids: "fieldid p = ids"
      by (auto simp: prepare_def Let_def split: sum.splits)
    have tsv: "ts = map (\<lambda>j. map F_TIME (FIELD w) ! np_row (length (FIELD w)) j) ids"
        and inb: "list_all (\<lambda>i. - int (length (FIELD w)) \<le> i \<and> i < int (length (FIELD w))) ids"
      using ts by (auto simp: np_take_def Let_def split: if_splits)
    have "np_row (length (FIELD w)) j < length (FIELD w)" if "j \<in> set ids" for j
      using inb that by (auto simp: list_all_iff np_row_def)
    then have "ts = map (\<lambda>j. F_TIME (FIELD w ! np_row (length (FIELD w)) j)) ids"
      unfolding tsv by simp
    moreover have "length (seconds p) = length ts" using secs by (rule seconds_of_length)
    ultimately show ?thesis using IntArr False ids secs by simp
  qed
qed

lemma correctForPM_Inr:
  assumes "correctForPM simbad inms field years newtime updatepm = Inr w'"
  shows "\<exists>w1 p. copy_and_sync simbad inms field updatepm = Inr w1 \<and>
           prepare w1 field years newtime = Inr p \<and>
           update_fields (zip (fieldid p) (seconds p)) (properMotion p) w1 = Inr w'"
proof -
  from assms obtain w1 p w2 where s: "copy_and_sync simbad inms field updatepm = Inr w1"
      and p: "prepare w1 field years newtime = Inr p"
      and u: "update_fields (zip (fieldid p) (seconds p)) (properMotion p) w1 = Inr w2"
      and w: "w' = (if fieldid p = [] then print (DidNotFindSource field) w2 else w2)"
    by (auto simp: correctForPM_def split: sum.splits)
  have "fieldid p \<noteq> []" using prepare_Inr[OF p] by simp
  then show ?thesis using s p u w by simp
qed

text \<open>
  The message of line 108 is never printed: an empty selection raises at line 74,
  before the loop that would leave \<^verbatim>\<open>foundSource\<close> at 0.
\<close>

lemma correctForPM_never_reports_miss:
  "DidNotFindSource v \<notin> set (stdout (final (correctForPM simbad inms field years newtime updatepm)))"
proof -
  let ?s = "copy_and_sync simbad inms field updatepm"
  have no: "DidNotFindSource v \<notin> set (stdout (final ?s))" by (rule copy_and_sync_stdout)
  show ?thesis
  proof (cases ?s)
    case (Inl f)
    then show ?thesis using no by (cases f) (simp add: correctForPM_def)
  next
    case (Inr w1)
    show ?thesis
    proof (cases "prepare w1 field years newtime")
      case (Inl e)
      then show ?thesis using Inr no by (simp add: correctForPM_def)
    next
      case p: (Inr p)
      have ne: "fieldid p \<noteq> []" using prepare_Inr[OF p] by simp
      let ?js = "zip (fieldid p) (seconds p)"
      show ?thesis
      proof (cases "update_fields ?js (properMotion p) w1")
        case u: (Inr w2)
        have "stdout w2 = stdout w1 @ map (CalculatingNewDirection \<circ> fst) ?js"
          using u by (rule update_fields_stdout)
        then show ?thesis using Inr p u ne no by (auto simp: correctForPM_def)
      next
        case u: (Inl f)
        obtain e w2 where f: "f = (e, w2)" by (cases f)
        have "set (stdout w2) \<subseteq> set (stdout w1) \<union> range CalculatingNewDirection"
          using update_fields_stdout_any[of ?js "properMotion p" w1] u f by simp
        then show ?thesis using Inr p u f no by (auto simp: correctForPM_def)
      qed
    qed
  qed
qed

section \<open>When the invocation returns\<close>

lemma update_fields_returns:
  assumes "\<forall>j\<in>fst ` set js. 0 \<le> j \<and> j < int (length (FIELD w))"
  shows "\<exists>w'. update_fields js pm w = Inr w'"
  using assms
proof (induction js arbitrary: w)
  case Nil
  show ?case by simp
next
  case (Cons a js)
  obtain j s where a: "a = (j, s)" by (cases a)
  have v: "0 \<le> j" "j < int (length (FIELD w))" using Cons.prems a by simp_all
  let ?w = "(print (CalculatingNewDirection j) w)
                \<lparr>FIELD := (FIELD w)[nat j := shift_row pm s (FIELD w ! nat j)]\<rparr>"
  have "\<forall>j\<in>fst ` set js. 0 \<le> j \<and> j < int (length (FIELD ?w))" using Cons.prems by simp
  from Cons.IH[OF this] show ?case
    unfolding a using v by (simp add: update_fields_step del: update_fields.simps)
qed

lemma copy_and_sync_source_ids:
  "map S_SOURCE_ID (SOURCE (final (copy_and_sync simbad inms field updatepm))) =
     map S_SOURCE_ID (SOURCE inms)"
proof (rule nth_equalityI)
  show "length (map S_SOURCE_ID (SOURCE (final (copy_and_sync simbad inms field updatepm)))) =
        length (map S_SOURCE_ID (SOURCE inms))"
    by (simp add: copy_and_sync_SOURCE_length)
next
  fix k assume "k < length (map S_SOURCE_ID (SOURCE (final (copy_and_sync simbad inms field updatepm))))"
  then have k: "k < length (SOURCE inms)" by (simp add: copy_and_sync_SOURCE_length)
  from copy_and_sync_SOURCE_nth[OF k, of simbad field updatepm]
  have "S_SOURCE_ID (SOURCE (final (copy_and_sync simbad inms field updatepm)) ! k) =
        S_SOURCE_ID (SOURCE inms ! k)"
    by auto
  then show "map S_SOURCE_ID (SOURCE (final (copy_and_sync simbad inms field updatepm))) ! k =
        map S_SOURCE_ID (SOURCE inms) ! k"
    using k by (simp add: copy_and_sync_SOURCE_length)
qed

text \<open>
  The invocation returns when the catalog step does, the specifier selects at least
  one field, all of them rows of the table, the source of the first is in the SOURCE
  table, and the array of seconds is filled (\<^verbatim>\<open>years\<close> a number or \<^verbatim>\<open>newtime\<close> a float,
  the elapsed times within \<^verbatim>\<open>int64\<close>).
\<close>

lemma correctForPM_returns:
  assumes s: "copy_and_sync simbad inms field updatepm = Inr w1"
    and ids: "fieldid_of (map F_NAME (FIELD inms)) field = IntArr ids" "ids \<noteq> []"
      "\<forall>j\<in>set ids. 0 \<le> j \<and> j < int (length (FIELD inms))"
    and src: "F_SOURCE_ID (FIELD inms ! nat (hd ids)) \<in> set (map S_SOURCE_ID (SOURCE inms))"
    and secs: "seconds_of newtime years (map (\<lambda>j. F_TIME (FIELD inms ! nat j)) ids) = Inr secs"
  shows "\<exists>w'. correctForPM simbad inms field years newtime updatepm = Inr w'"
proof -
  have fld: "FIELD w1 = FIELD inms"
    using copy_and_sync_FIELD[of simbad inms field updatepm] s by simp
  have sids: "map S_SOURCE_ID (SOURCE w1) = map S_SOURCE_ID (SOURCE inms)"
    using copy_and_sync_source_ids[of simbad inms field updatepm] s by simp
  let ?n = "length (FIELD inms)"
  have ok: "list_all (\<lambda>i. - int ?n \<le> i \<and> i < int ?n) ids" using ids(3) by (auto simp: list_all_iff)
  have row: "np_row ?n j = nat j" "nat j < ?n" if "j \<in> set ids" for j
    using ids(3) that by (auto simp: np_row_def)
  have t1: "np_take (map F_SOURCE_ID (FIELD inms)) (IntArr ids) =
        Inr (map (\<lambda>j. F_SOURCE_ID (FIELD inms ! nat j)) ids)"
    using ok row by (simp add: np_take_def)
  have t2: "np_take (map F_TIME (FIELD inms)) (IntArr ids) =
        Inr (map (\<lambda>j. F_TIME (FIELD inms ! nat j)) ids)"
    using ok row by (simp add: np_take_def)
  obtain i0 rest where i0: "ids = i0 # rest" using ids(2) by (cases ids) auto
  have "where_eq (map S_SOURCE_ID (SOURCE inms)) (F_SOURCE_ID (FIELD inms ! nat i0)) \<noteq> []"
    using src i0 by (simp add: where_eq_empty_iff)
  then obtain k ks where k: "where_eq (map S_SOURCE_ID (SOURCE inms)) (F_SOURCE_ID (FIELD inms ! nat i0)) = k # ks"
    by (cases "where_eq (map S_SOURCE_ID (SOURCE inms)) (F_SOURCE_ID (FIELD inms ! nat i0))") auto
  have fi: "first_instance (map S_SOURCE_ID (SOURCE inms))
        (map (\<lambda>j. F_SOURCE_ID (FIELD inms ! nat j)) ids) = Inr (nat k)"
    using i0 k by (simp add: first_instance_def)
  have p: "prepare w1 field years newtime =
      Inr \<lparr>fieldid = ids, seconds = secs, properMotion = PROPER_MOTION (SOURCE w1 ! nat k)\<rparr>"
    using ids(1) t1 t2 fi secs by (simp add: prepare_def fld sids)
  have len: "length secs = length ids" using seconds_of_length[OF secs] by simp
  have "fst ` set (zip ids secs) \<subseteq> set ids" by (auto dest: set_zip_leftD)
  then have "\<forall>j\<in>fst ` set (zip ids secs). 0 \<le> j \<and> j < int (length (FIELD w1))"
    using ids(3) fld by auto
  from update_fields_returns[OF this, of "PROPER_MOTION (SOURCE w1 ! nat k)"]
  obtain w' where "update_fields (zip ids secs) (PROPER_MOTION (SOURCE w1 ! nat k)) w1 = Inr w'"
    by blast
  then show ?thesis using s p ids(2) by (simp add: correctForPM_def)
qed

text \<open>A name or a single integer lists every selected field once.\<close>

lemma scalar_fieldid_distinct:
  assumes "prepare w (Scalar v) years newtime = Inr p"
  shows "distinct (fieldid p)"
proof -
  have "IntArr (fieldid p) = fieldid_of (map F_NAME (FIELD w)) (Scalar v)"
    using prepare_Inr[OF assms] by simp
  then show ?thesis by (cases v) (simp_all add: distinct_where_eq)
qed

section \<open>When the invocation raises\<close>

lemma updatePM_name_raises:
  assumes "updatePM simbad w (Scalar (PyStr q)) = Inl (e, w')"
  shows "e = IndexError SyncRow"
proof (cases "simbad (Scalar (PyStr q))")
  case None
  then show ?thesis using assms by (simp add: updatePM_miss)
next
  case (Some r)
  show ?thesis
  proof (cases "where_eq (map S_NAME (SOURCE w)) q")
    case Nil
    then show ?thesis
      using assms updatePM_no_row[of simbad "Scalar (PyStr q)" r w] Some by simp
  next
    case (Cons s0 ss)
    from updatePM_name[of simbad q r w s0 ss, OF Some Cons] obtain w2 where
      "updatePM simbad w (Scalar (PyStr q)) = Inr w2" by blast
    then show ?thesis using assms by simp
  qed
qed

text \<open>
  Claim C1, as the code has it.  A name that no FIELD row has selects nothing, and line
  74 then raises \<^verbatim>\<open>IndexError\<close> on \<^verbatim>\<open>sources[0]\<close>: the invocation does not complete, and
  the message of line 108 is not printed.  No direction is written.
\<close>

theorem name_miss_raises:
  assumes "s \<notin> set (map F_NAME (FIELD inms))"
  shows "\<exists>e w. correctForPM simbad inms (Scalar (PyStr s)) years newtime updatepm = Inl (e, w) \<and>
           FIELD w = FIELD inms \<and>
           DidNotFindSource (Scalar (PyStr s)) \<notin> set (stdout w) \<and>
           (e = IndexError FirstSelected \<or> updatepm \<and> e = IndexError SyncRow)"
proof -
  let ?field = "Scalar (PyStr s)"
  let ?s = "copy_and_sync simbad inms ?field updatepm"
  let ?run = "correctForPM simbad inms ?field years newtime updatepm"
  have no: "DidNotFindSource ?field \<notin> set (stdout (final ?run))"
    by (rule correctForPM_never_reports_miss)
  show ?thesis
  proof (cases ?s)
    case (Inl f)
    obtain e w where f: "f = (e, w)" by (cases f)
    have run: "?run = Inl (e, w)" using Inl f by (simp add: correctForPM_def)
    have "FIELD w = FIELD inms" using copy_and_sync_FIELD[of simbad inms ?field updatepm] Inl f by simp
    moreover have "updatepm \<and> e = IndexError SyncRow"
    proof (cases updatepm)
      case True
      then have "updatePM simbad (copytree inms) ?field = Inl (e, w)"
        using Inl f by (simp add: copy_and_sync_def)
      then show ?thesis using True by (simp add: updatePM_name_raises)
    next
      case False
      then show ?thesis using Inl by (simp add: copy_and_sync_def)
    qed
    ultimately show ?thesis using run no by simp
  next
    case (Inr w1)
    have fld: "FIELD w1 = FIELD inms" using copy_and_sync_FIELD[of simbad inms ?field updatepm] Inr by simp
    have "fieldid_of (map F_NAME (FIELD w1)) ?field = IntArr []"
      using assms fld where_eq_empty_iff[of "map F_NAME (FIELD inms)" s] by simp
    then have "prepare w1 ?field years newtime = Inl (IndexError FirstSelected)"
      by (rule prepare_empty)
    then have run: "?run = Inl (IndexError FirstSelected, w1)" using Inr by (simp add: correctForPM_def)
    then show ?thesis using fld no by simp
  qed
qed

theorem name_miss_raises_witness:
  "''vega'' \<notin> set (map F_NAME (FIELD demo_ms)) \<and>
   correctForPM (\<lambda>v. None) demo_ms (Scalar (PyStr ''vega'')) (Scalar (PyInt 0)) (Scalar PyNone) False
     = Inl (IndexError FirstSelected, copytree demo_ms)"
proof -
  have h: "''vega'' \<notin> set (map F_NAME (FIELD demo_ms))" by (simp add: demo_ms_def)
  from name_miss_raises [OF h, of "\<lambda>v. None" "Scalar (PyInt 0)" "Scalar PyNone" False]
  obtain e w where "correctForPM (\<lambda>v. None) demo_ms (Scalar (PyStr ''vega'')) (Scalar (PyInt 0))
        (Scalar PyNone) False = Inl (e, w)" "e = IndexError FirstSelected"
    by auto
  moreover have "final (correctForPM (\<lambda>v. None) demo_ms (Scalar (PyStr ''vega'')) (Scalar (PyInt 0))
        (Scalar PyNone) False) = copytree demo_ms"
    by (simp add: correctForPM_def copy_and_sync_def prepare_def np_take_def where_eq_def
        first_instance_def demo_ms_def)
  ultimately show ?thesis using h by simp
qed






section \<open>The corrected directions\<close>

lemma correctForPM_once:
  assumes "correctForPM simbad inms field years newtime updatepm = Inr w'"
  shows "\<exists>w1 p. copy_and_sync simbad inms field updatepm = Inr w1 \<and>
           prepare w1 field years newtime = Inr p \<and>
           (\<forall>i<length (fieldid p).
              (\<forall>i'<length (fieldid p). i' \<noteq> i \<longrightarrow> fieldid p ! i' \<noteq> fieldid p ! i) \<longrightarrow>
              0 \<le> fieldid p ! i \<and> fieldid p ! i < int (length (FIELD inms)) \<and>
              FIELD w' ! nat (fieldid p ! i) =
                shift_row (properMotion p) (seconds p ! i) (FIELD inms ! nat (fieldid p ! i)))"
proof -
  from correctForPM_Inr[OF assms] obtain w1 p where
    s: "copy_and_sync simbad inms field updatepm = Inr w1" and
    p: "prepare w1 field years newtime = Inr p" and
    u: "update_fields (zip (fieldid p) (seconds p)) (properMotion p) w1 = Inr w'"
    by blast
  have fld: "FIELD w1 = FIELD inms"
    using copy_and_sync_FIELD[of simbad inms field updatepm] s by simp
  have len: "length (seconds p) = length (fieldid p)" using prepare_Inr[OF p] by simp
  let ?js = "zip (fieldid p) (seconds p)"
  have "0 \<le> fieldid p ! i \<and> fieldid p ! i < int (length (FIELD inms)) \<and>
        FIELD w' ! nat (fieldid p ! i) =
          shift_row (properMotion p) (seconds p ! i) (FIELD inms ! nat (fieldid p ! i))"
    if i: "i < length (fieldid p)"
      and once: "\<forall>i'<length (fieldid p). i' \<noteq> i \<longrightarrow> fieldid p ! i' \<noteq> fieldid p ! i" for i
  proof -
    have i': "i < length ?js" using i len by simp
    have ji: "?js ! i = (fieldid p ! i, seconds p ! i)" using i len by simp
    have o: "\<forall>i'<length ?js. i' \<noteq> i \<longrightarrow> fst (?js ! i') \<noteq> fieldid p ! i"
      using once len by simp
    from update_fields_once[OF u i' ji o] show ?thesis using fld by simp
  qed
  then show ?thesis using s p by blast
qed

text \<open>
  Claim C3.  When \<^verbatim>\<open>correctForPM\<close> returns: for every selected field (listed once in
  \<^verbatim>\<open>fieldid\<close>) and each of the three direction columns, with \<open>(ra, dec)\<close> the direction
  of the input, \<open>(pmra, pmdec)\<close> the proper motion read at line 75 and \<open>t\<close> the field's
  cell of \<^verbatim>\<open>seconds\<close>, the direction of the output is
  \<open>(ra + pmra * t / cos new_dec, new_dec)\<close> with \<open>new_dec = dec + pmdec * t\<close>: the cosine
  is that of the new declination.  A name or a single integer lists every selected
  field once; a list that names a field twice moves it twice, the second time from
  where the first left it.
\<close>

theorem direction_update:
  assumes "correctForPM simbad inms field years newtime updatepm = Inr w'"
  shows "\<exists>w1 p. copy_and_sync simbad inms field updatepm = Inr w1 \<and>
           prepare w1 field years newtime = Inr p \<and>
           (\<forall>i<length (fieldid p).
              (\<forall>i'<length (fieldid p). i' \<noteq> i \<longrightarrow> fieldid p ! i' \<noteq> fieldid p ! i) \<longrightarrow>
              (\<forall>direct ra dec pmra pmdec t new_dec.
                 F_DIR (FIELD inms ! nat (fieldid p ! i)) direct = (ra, dec) \<and>
                 properMotion p = (pmra, pmdec) \<and>
                 t = real_of_int (seconds p ! i) \<and>
                 new_dec = dec + pmdec * t \<longrightarrow>
                 F_DIR (FIELD w' ! nat (fieldid p ! i)) direct =
                   (ra + pmra * t / cos new_dec, new_dec)))"
proof -
  from correctForPM_once[OF assms] obtain w1 p where
    s: "copy_and_sync simbad inms field updatepm = Inr w1" and
    p: "prepare w1 field years newtime = Inr p" and
    row: "\<forall>i<length (fieldid p).
              (\<forall>i'<length (fieldid p). i' \<noteq> i \<longrightarrow> fieldid p ! i' \<noteq> fieldid p ! i) \<longrightarrow>
              0 \<le> fieldid p ! i \<and> fieldid p ! i < int (length (FIELD inms)) \<and>
              FIELD w' ! nat (fieldid p ! i) =
                shift_row (properMotion p) (seconds p ! i) (FIELD inms ! nat (fieldid p ! i))"
    by blast
  have "\<forall>i<length (fieldid p).
              (\<forall>i'<length (fieldid p). i' \<noteq> i \<longrightarrow> fieldid p ! i' \<noteq> fieldid p ! i) \<longrightarrow>
              (\<forall>direct ra dec pmra pmdec t new_dec.
                 F_DIR (FIELD inms ! nat (fieldid p ! i)) direct = (ra, dec) \<and>
                 properMotion p = (pmra, pmdec) \<and>
                 t = real_of_int (seconds p ! i) \<and>
                 new_dec = dec + pmdec * t \<longrightarrow>
                 F_DIR (FIELD w' ! nat (fieldid p ! i)) direct =
                   (ra + pmra * t / cos new_dec, new_dec))"
  proof (intro allI impI)
    fix i direct ra dec pmra pmdec t new_dec
    assume i: "i < length (fieldid p)"
      and once: "\<forall>i'<length (fieldid p). i' \<noteq> i \<longrightarrow> fieldid p ! i' \<noteq> fieldid p ! i"
      and h: "F_DIR (FIELD inms ! nat (fieldid p ! i)) direct = (ra, dec) \<and>
                 properMotion p = (pmra, pmdec) \<and>
                 t = real_of_int (seconds p ! i) \<and>
                 new_dec = dec + pmdec * t"
    from row i once have "FIELD w' ! nat (fieldid p ! i) =
        shift_row (properMotion p) (seconds p ! i) (FIELD inms ! nat (fieldid p ! i))"
      by blast
    then show "F_DIR (FIELD w' ! nat (fieldid p ! i)) direct = (ra + pmra * t / cos new_dec, new_dec)"
      using h by (simp add: new_direction_def Let_def)
  qed
  then show ?thesis using s p by blast
qed

lemma demo_plan:
  "prepare (copytree demo_ms) (Scalar (PyStr ''hr8799'')) (Scalar (PyInt 0)) (Scalar PyNone) =
     Inr \<lparr>fieldid = [0], seconds = [100], properMotion = (1 / 100, 1 / 1000)\<rparr>"
  by (simp add: prepare_def np_take_def where_eq_def first_instance_def demo_ms_def
      seconds_of_def int64_store_def trunc_def np_row_def)

lemma demo_returns:
  "correctForPM no_catalog demo_ms (Scalar (PyStr ''hr8799'')) (Scalar (PyInt 0)) (Scalar PyNone) False =
     Inr (final (correctForPM no_catalog demo_ms (Scalar (PyStr ''hr8799'')) (Scalar (PyInt 0))
                  (Scalar PyNone) False))"
proof -
  have "length (FIELD demo_ms) = 2" by (simp add: demo_ms_def)
  then show ?thesis
    by (simp add: correctForPM_def copy_and_sync_off demo_plan update_fields_step
        del: update_fields.simps(2))
qed

theorem direction_update_witness:
  "\<exists>w'. correctForPM no_catalog demo_ms (Scalar (PyStr ''hr8799'')) (Scalar (PyInt 0)) (Scalar PyNone) False
           = Inr w' \<and>
        F_DIR (FIELD demo_ms ! 0) PHASE_DIR = (1, 1 / 10) \<and>
        F_DIR (FIELD w' ! 0) PHASE_DIR = (1 + 1 / 100 * 100 / cos (1 / 5), 1 / 5)"
proof -
  let ?field = "Scalar (PyStr ''hr8799'')"
  let ?run = "correctForPM no_catalog demo_ms ?field (Scalar (PyInt 0)) (Scalar PyNone) False"
  let ?p = "\<lparr>fieldid = [0], seconds = [100], properMotion = (1 / 100, 1 / 1000)\<rparr>"
  from direction_update [OF demo_returns] obtain w1 p where
    s: "copy_and_sync no_catalog demo_ms ?field False = Inr w1" and
    p: "prepare w1 ?field (Scalar (PyInt 0)) (Scalar PyNone) = Inr p" and
    d: "\<forall>i<length (fieldid p).
          (\<forall>i'<length (fieldid p). i' \<noteq> i \<longrightarrow> fieldid p ! i' \<noteq> fieldid p ! i) \<longrightarrow>
          (\<forall>direct ra dec pmra pmdec t new_dec.
             F_DIR (FIELD demo_ms ! nat (fieldid p ! i)) direct = (ra, dec) \<and>
             properMotion p = (pmra, pmdec) \<and>
             t = real_of_int (seconds p ! i) \<and>
             new_dec = dec + pmdec * t \<longrightarrow>
             F_DIR (FIELD (final ?run) ! nat (fieldid p ! i)) direct =
               (ra + pmra * t / cos new_dec, new_dec))"
    by blast
  have w1: "w1 = copytree demo_ms" using s by (simp add: copy_and_sync_off)
  have pe: "p = ?p" using p demo_plan unfolding w1 by simp
  have old: "F_DIR (FIELD demo_ms ! 0) PHASE_DIR = (1, 1 / 10)" by (simp add: demo_ms_def)
  have "F_DIR (FIELD (final ?run) ! nat (fieldid p ! 0)) PHASE_DIR =
          (1 + 1 / 100 * real_of_int (seconds p ! 0) / cos (1 / 10 + 1 / 1000 * real_of_int (seconds p ! 0)),
           1 / 10 + 1 / 1000 * real_of_int (seconds p ! 0))"
    using d[rule_format, of 0 PHASE_DIR 1 "1 / 10" "1 / 100" "1 / 1000"
        "real_of_int (seconds p ! 0)" "1 / 10 + 1 / 1000 * real_of_int (seconds p ! 0)"]
    using old unfolding pe by simp
  then have new: "F_DIR (FIELD (final ?run) ! 0) PHASE_DIR = (1 + 1 / 100 * 100 / cos (1 / 5), 1 / 5)"
    unfolding pe by simp
  show ?thesis
    by (rule exI[of _ "final ?run"]) (use demo_returns old new in blast)
qed






section \<open>The elapsed time of a returning invocation\<close>

lemma store_each_int64:
  assumes "store_each xs = Inr ss"
  shows "\<forall>s\<in>set ss. - (2 ^ 63) \<le> s \<and> s < 2 ^ 63"
  using assms
proof (induction xs arbitrary: ss)
  case Nil
  then show ?case by simp
next
  case (Cons x xs)
  from Cons.prems obtain s rest where s: "int64_store x = Inr s" and r: "store_each xs = Inr rest"
      and ss: "ss = s # rest"
    by (auto split: sum.splits)
  from int64_store_Inr[OF s] Cons.IH[OF r] show ?case unfolding ss by simp
qed

lemma seconds_of_int64:
  assumes "seconds_of newtime years ts = Inr secs"
  shows "\<forall>s\<in>set secs. - (2 ^ 63) \<le> s \<and> s < 2 ^ 63"
proof (cases "\<exists>t. newtime = Scalar (PyFloat t)")
  case True
  then show ?thesis using assms store_each_int64[of _ secs] by (auto simp: seconds_of_float)
next
  case False
  then have nf: "\<forall>t. newtime \<noteq> Scalar (PyFloat t)" by simp
  show ?thesis
    using assms store_each_int64[of _ secs]
    unfolding seconds_of_not_float[OF nf]
    by (auto split: if_splits sum.splits)
qed

text \<open>
  What a returning invocation has computed on the way: the copy, synchronised or not,
  the selection with its array \<^verbatim>\<open>seconds\<close>, made from the \<^verbatim>\<open>TIME\<close> cells of the selected
  rows of the input, and the loop over the two arrays, which made the output.
\<close>

lemma correctForPM_elapsed:
  assumes "correctForPM simbad inms field years newtime updatepm = Inr w'"
  shows "\<exists>w1 p. copy_and_sync simbad inms field updatepm = Inr w1 \<and>
           prepare w1 field years newtime = Inr p \<and>
           update_fields (zip (fieldid p) (seconds p)) (properMotion p) w1 = Inr w' \<and>
           fieldid p \<noteq> [] \<and> length (seconds p) = length (fieldid p) \<and>
           (\<forall>i<length (fieldid p). 0 \<le> fieldid p ! i \<and> fieldid p ! i < int (length (FIELD inms))) \<and>
           seconds_of newtime years (map (\<lambda>j. F_TIME (FIELD inms ! nat j)) (fieldid p)) =
             Inr (seconds p)"
proof -
  from correctForPM_Inr[OF assms] obtain w1 p where
    s: "copy_and_sync simbad inms field updatepm = Inr w1" and
    p: "prepare w1 field years newtime = Inr p" and
    u: "update_fields (zip (fieldid p) (seconds p)) (properMotion p) w1 = Inr w'"
    by blast
  have fld: "FIELD w1 = FIELD inms"
    using copy_and_sync_FIELD[of simbad inms field updatepm] s by simp
  note pi = prepare_Inr[OF p]
  have len: "length (seconds p) = length (fieldid p)" using pi by simp
  have "fst ` set (zip (fieldid p) (seconds p)) = set (fieldid p)"
    using len by (metis map_fst_zip set_map)
  with update_fields_Inr_valid[OF u] fld
  have valid: "\<forall>j\<in>set (fieldid p). 0 \<le> j \<and> j < int (length (FIELD inms))" by simp
  then have v: "\<forall>i<length (fieldid p). 0 \<le> fieldid p ! i \<and> fieldid p ! i < int (length (FIELD inms))"
    by simp
  have "map (\<lambda>j. F_TIME (FIELD w1 ! np_row (length (FIELD w1)) j)) (fieldid p) =
        map (\<lambda>j. F_TIME (FIELD inms ! nat j)) (fieldid p)"
    using valid fld by (auto simp: np_row_def)
  with pi have "seconds_of newtime years (map (\<lambda>j. F_TIME (FIELD inms ! nat j)) (fieldid p)) =
      Inr (seconds p)"
    by simp
  with s p u pi len v show ?thesis by blast
qed

text \<open>The example dataset, its first field selected by name, nothing fetched.\<close>

lemma demo_selected:
  assumes "seconds_of newtime years [4453401700.5] = Inr secs"
  shows "prepare (copytree demo_ms) (Scalar (PyStr ''hr8799'')) years newtime =
           Inr \<lparr>fieldid = [0], seconds = secs, properMotion = (1 / 100, 1 / 1000)\<rparr>"
  using assms
  by (simp add: prepare_def np_take_def where_eq_def first_instance_def demo_ms_def np_row_def)

lemma demo_run:
  assumes "seconds_of newtime years [4453401700.5] = Inr [s]"
  shows "correctForPM no_catalog demo_ms (Scalar (PyStr ''hr8799'')) years newtime False =
           Inr ((print (CalculatingNewDirection 0) (copytree demo_ms))
                  \<lparr>FIELD := (FIELD demo_ms)[0 := shift_row (1 / 100, 1 / 1000) s (FIELD demo_ms ! 0)]\<rparr>)"
proof -
  have "length (FIELD demo_ms) = 2" by (simp add: demo_ms_def)
  then show ?thesis
    by (simp add: correctForPM_def copy_and_sync_off demo_selected[OF assms] update_fields_step
        del: update_fields.simps(2))
qed




text \<open>An elapsed time beyond \<^verbatim>\<open>int64\<close> is refused by the array: the invocation raises.\<close>

lemma skew_overflow:
  "correctForPM no_catalog skew_ms (Scalar (PyInt 0)) (Scalar (PyInt 0)) (Scalar (PyFloat (10 ^ 30))) False =
     Inl (OverflowError, copytree skew_ms)"
proof -
  have "(10::real) ^ 30 - 4453401700 \<ge> 2 ^ 63" by simp
  then have "int64_store (10 ^ 30 - 4453401700) = Inl OverflowError"
    unfolding int64_store_def trunc_def Let_def
    by (simp add: le_floor_iff del: of_int_power_le_of_int_cancel_iff)
  then show ?thesis
    by (simp add: correctForPM_def copy_and_sync_off prepare_def np_take_def where_eq_def
        first_instance_def skew_ms_def seconds_of_def np_row_def)
qed

text \<open>
  Claim C8, as amended.  An integer \<^verbatim>\<open>newtime\<close> is no float (line 79): the invocation
  does what it does for \<^verbatim>\<open>newtime=None\<close>, whatever the integer.  With \<^verbatim>\<open>years == 0\<close>, when
  it returns, the cell of \<^verbatim>\<open>seconds\<close> of every selected field, with \<open>T\<close> the \<^verbatim>\<open>TIME\<close> of
  its row in the input, is \<open>T - 4453401600\<close> truncated toward zero to whole seconds, and
  the loop of lines 97-105 goes through these cells.
\<close>

theorem integer_newtime_is_default_mode:
  "correctForPM simbad inms field years (Scalar (PyInt e)) updatepm =
     correctForPM simbad inms field years (Scalar PyNone) updatepm \<and>
   (\<forall>w'. py_eq_zero years \<and>
          correctForPM simbad inms field years (Scalar (PyInt e)) updatepm = Inr w' \<longrightarrow>
      (\<exists>w1 p. copy_and_sync simbad inms field updatepm = Inr w1 \<and>
         prepare w1 field years (Scalar (PyInt e)) = Inr p \<and>
         update_fields (zip (fieldid p) (seconds p)) (properMotion p) w1 = Inr w' \<and>
         length (seconds p) = length (fieldid p) \<and>
         (\<forall>i<length (fieldid p).
            seconds p ! i = trunc (F_TIME (FIELD inms ! nat (fieldid p ! i)) - 4453401600))))"
proof (intro conjI allI impI)
  have "prepare w field years (Scalar (PyInt e)) = prepare w field years (Scalar PyNone)" for w
    unfolding prepare_def seconds_of_int_newtime by (rule refl)
  then show "correctForPM simbad inms field years (Scalar (PyInt e)) updatepm =
     correctForPM simbad inms field years (Scalar PyNone) updatepm"
    unfolding correctForPM_def by (simp only:)
next
  fix w'
  assume a: "py_eq_zero years \<and>
          correctForPM simbad inms field years (Scalar (PyInt e)) updatepm = Inr w'"
  then have z: "py_eq_zero years"
    and r: "correctForPM simbad inms field years (Scalar (PyInt e)) updatepm = Inr w'"
    by simp_all
  from correctForPM_elapsed[OF r] obtain w1 p where
    s: "copy_and_sync simbad inms field updatepm = Inr w1" and
    p: "prepare w1 field years (Scalar (PyInt e)) = Inr p" and
    u: "update_fields (zip (fieldid p) (seconds p)) (properMotion p) w1 = Inr w'" and
    len: "length (seconds p) = length (fieldid p)" and
    secs: "seconds_of (Scalar (PyInt e)) years
             (map (\<lambda>j. F_TIME (FIELD inms ! nat j)) (fieldid p)) = Inr (seconds p)"
    by blast
  have "seconds p ! i = trunc (F_TIME (FIELD inms ! nat (fieldid p ! i)) - 4453401600)"
    if i: "i < length (fieldid p)" for i
  proof -
    have "i < length (map (\<lambda>j. F_TIME (FIELD inms ! nat j)) (fieldid p))" using i by simp
    from seconds_of_nth[OF secs this] z i show ?thesis by simp
  qed
  with s p u len
  show "\<exists>w1 p. copy_and_sync simbad inms field updatepm = Inr w1 \<and>
         prepare w1 field years (Scalar (PyInt e)) = Inr p \<and>
         update_fields (zip (fieldid p) (seconds p)) (properMotion p) w1 = Inr w' \<and>
         length (seconds p) = length (fieldid p) \<and>
         (\<forall>i<length (fieldid p).
            seconds p ! i = trunc (F_TIME (FIELD inms ! nat (fieldid p ! i)) - 4453401600))"
    by blast
qed

text \<open>
  The elapsed time as the claim was stated, \<open>T - 4453401600\<close> itself, is not what is
  computed when \<open>T\<close> is no whole number: a field recorded at 4453401700.5 gets 100
  seconds, not 100.5, and its declination moves by \<open>1 / 1000 * 100\<close>.
\<close>

theorem integer_newtime_is_default_mode_counterexample:
  "F_TIME (FIELD demo_ms ! 0) = 4453401700.5 \<and>
   prepare (copytree demo_ms) (Scalar (PyStr ''hr8799'')) (Scalar (PyInt 0)) (Scalar (PyInt 4453402000)) =
     Inr \<lparr>fieldid = [0], seconds = [100], properMotion = (1 / 100, 1 / 1000)\<rparr> \<and>
   real_of_int 100 \<noteq> 4453401700.5 - 4453401600 \<and>
   correctForPM no_catalog demo_ms (Scalar (PyStr ''hr8799'')) (Scalar (PyInt 0))
       (Scalar (PyInt 4453402000)) False =
     Inr ((print (CalculatingNewDirection 0) (copytree demo_ms))
            \<lparr>FIELD := (FIELD demo_ms)[0 := shift_row (1 / 100, 1 / 1000) 100 (FIELD demo_ms ! 0)]\<rparr>)"
proof -
  have t: "F_TIME (FIELD demo_ms ! 0) = 4453401700.5" by (simp add: demo_ms_def)
  have s: "seconds_of (Scalar (PyInt 4453402000)) (Scalar (PyInt 0)) [4453401700.5] = Inr [100]"
    by (simp add: seconds_of_def int64_store_def trunc_def)
  have d: "real_of_int 100 \<noteq> 4453401700.5 - 4453401600" by simp
  from t demo_selected[OF s] d demo_run[OF s] show ?thesis by (simp only: simp_thms)
qed

theorem integer_newtime_is_default_mode_witness:
  "\<exists>w' w1 p. correctForPM no_catalog demo_ms (Scalar (PyStr ''hr8799'')) (Scalar (PyInt 0))
                (Scalar (PyInt 4453402000)) False = Inr w' \<and>
              correctForPM no_catalog demo_ms (Scalar (PyStr ''hr8799'')) (Scalar (PyInt 0))
                (Scalar PyNone) False = Inr w' \<and>
              prepare w1 (Scalar (PyStr ''hr8799'')) (Scalar (PyInt 0)) (Scalar (PyInt 4453402000)) = Inr p \<and>
              update_fields (zip (fieldid p) (seconds p)) (properMotion p) w1 = Inr w' \<and>
              F_TIME (FIELD demo_ms ! 0) = 4453401700.5 \<and>
              fieldid p = [0] \<and> seconds p = [100]"
proof -
  let ?f = "Scalar (PyStr ''hr8799'')"
  let ?y = "Scalar (PyInt 0)" and ?n = "Scalar (PyInt 4453402000)"
  have t: "F_TIME (FIELD demo_ms ! 0) = 4453401700.5" by (simp add: demo_ms_def)
  have ids: "fieldid_of (map F_NAME (FIELD (copytree demo_ms))) ?f = IntArr [0]"
    by (simp add: where_eq_def demo_ms_def)
  have one: "xs = [xs ! 0]" if "length xs = Suc 0" for xs :: "int list"
    using that by (cases xs) auto
  define w' where "w' = final (correctForPM no_catalog demo_ms ?f ?y ?n False)"
  have "seconds_of ?n ?y [4453401700.5] = Inr [100]"
    by (simp add: seconds_of_def int64_store_def trunc_def)
  from demo_run[OF this]
  have r: "correctForPM no_catalog demo_ms ?f ?y ?n False = Inr w'"
    unfolding w'_def by simp
  note inst = integer_newtime_is_default_mode [of no_catalog demo_ms ?f ?y 4453402000 False]
  have r0: "correctForPM no_catalog demo_ms ?f ?y (Scalar PyNone) False = Inr w'"
    using inst[THEN conjunct1] r by simp
  have z: "py_eq_zero ?y" by simp
  from inst[THEN conjunct2, rule_format, OF conjI, OF z r] obtain w1 p where
    all: "copy_and_sync no_catalog demo_ms ?f False = Inr w1 \<and>
         prepare w1 ?f ?y ?n = Inr p \<and>
         update_fields (zip (fieldid p) (seconds p)) (properMotion p) w1 = Inr w' \<and>
         length (seconds p) = length (fieldid p) \<and>
         (\<forall>i<length (fieldid p).
            seconds p ! i = trunc (F_TIME (FIELD demo_ms ! nat (fieldid p ! i)) - 4453401600))"
    by (elim exE) (erule that)
  from all have s: "copy_and_sync no_catalog demo_ms ?f False = Inr w1" by (rule conjunct1)
  from all have p: "prepare w1 ?f ?y ?n = Inr p" by (rule conjunct2[THEN conjunct1])
  from all have u: "update_fields (zip (fieldid p) (seconds p)) (properMotion p) w1 = Inr w'"
    by (rule conjunct2[THEN conjunct2, THEN conjunct1])
  from all have len: "length (seconds p) = length (fieldid p)"
    by (rule conjunct2[THEN conjunct2, THEN conjunct2, THEN conjunct1])
  note e = all[THEN conjunct2, THEN conjunct2, THEN conjunct2, THEN conjunct2, rule_format]
  have w1: "w1 = copytree demo_ms" using s by (simp add: copy_and_sync_off)
  have f: "fieldid p = [0]" using prepare_Inr[OF p] ids unfolding w1 by simp
  have "seconds p ! 0 = trunc (4453401700.5 - 4453401600)"
    using e[of 0] f t by simp
  then have "seconds p ! 0 = 100" by (simp add: trunc_def)
  then have sp: "seconds p = [100]" using one[of "seconds p"] len f by simp
  show ?thesis
    apply (rule exI[of _ w'], rule exI[of _ w1], rule exI[of _ p])
    apply (simp only: r r0 p u[unfolded f sp] t f sp simp_thms)
    done
qed

text \<open>
  The elapsed time before it is stored, and the cell it becomes: the value truncated
  toward zero.
\<close>

lemma seconds_of_trunc:
  assumes "seconds_of newtime years ts = Inr secs" and "i < length ts"
  shows "\<exists>x. (\<forall>E. newtime = Scalar (PyFloat E) \<longrightarrow> x = E - ts ! i) \<and>
              ((\<forall>E. newtime \<noteq> Scalar (PyFloat E)) \<and> py_eq_zero years \<longrightarrow>
                 x = ts ! i - 4453401600) \<and>
              ((\<forall>E. newtime \<noteq> Scalar (PyFloat E)) \<and> \<not> py_eq_zero years \<longrightarrow>
                 py_times_float years SECONDS_PER_YEAR = Inr x) \<and>
              secs ! i = trunc x"
proof (cases "\<exists>t. newtime = Scalar (PyFloat t)")
  case True
  then obtain E where E: "newtime = Scalar (PyFloat E)" by blast
  have "store_each (map (\<lambda>T. E - T) ts) = Inr secs" using assms(1) E by (simp add: seconds_of_float)
  from store_each_Inr[OF this] assms(2) have "secs ! i = trunc (E - ts ! i)" by simp
  then show ?thesis using E by simp
next
  case False
  then have nf: "\<forall>t. newtime \<noteq> Scalar (PyFloat t)" by simp
  note eq = assms(1)[unfolded seconds_of_not_float[OF nf]]
  show ?thesis
  proof (cases "py_eq_zero years")
    case True
    have "store_each (map (\<lambda>T. T - 4453401600) ts) = Inr secs" using eq True by simp
    from store_each_Inr[OF this] assms(2) have "secs ! i = trunc (ts ! i - 4453401600)" by simp
    then show ?thesis using nf True by simp
  next
    case z: False
    from eq z obtain v where v: "py_times_float years SECONDS_PER_YEAR = Inr v"
        and st: "store_each (map (\<lambda>T. v) ts) = Inr secs"
      by (auto split: sum.splits)
    from store_each_Inr[OF st] assms(2) have "secs ! i = trunc v" by simp
    then show ?thesis using nf z v by simp
  qed
qed

text \<open>
  Claim C9.  The array \<^verbatim>\<open>seconds\<close> is made by \<^verbatim>\<open>np.zeros_like(fieldid)\<close> (line 78) and has
  the integer type of \<^verbatim>\<open>fieldid\<close>.  When \<^verbatim>\<open>correctForPM\<close> returns, for every selected field
  with \<open>x\<close> the elapsed time of the mode (\<^verbatim>\<open>newtime - T\<close>, \<^verbatim>\<open>T - 4453401600\<close> or
  \<^verbatim>\<open>years * SECONDS_PER_YEAR\<close>, \<open>T\<close> the \<^verbatim>\<open>TIME\<close> of the field's row in the input), the cell
  of \<^verbatim>\<open>seconds\<close> is \<open>x\<close> truncated toward zero, a whole number of seconds within
  \<^verbatim>\<open>int64\<close> and less than one second from \<open>x\<close>; and it is this whole number that is
  multiplied by the proper motion (lines 101-102): for a field listed once in
  \<^verbatim>\<open>fieldid\<close>, each direction of the output is that of the input moved by the proper
  motion times the truncated value.
\<close>

theorem seconds_truncated:
  assumes "correctForPM simbad inms field years newtime updatepm = Inr w'"
  shows "\<exists>w1 p. copy_and_sync simbad inms field updatepm = Inr w1 \<and>
           prepare w1 field years newtime = Inr p \<and>
           length (seconds p) = length (fieldid p) \<and>
           (\<forall>i<length (fieldid p). \<exists>x.
              (\<forall>E. newtime = Scalar (PyFloat E) \<longrightarrow>
                 x = E - F_TIME (FIELD inms ! nat (fieldid p ! i))) \<and>
              ((\<forall>E. newtime \<noteq> Scalar (PyFloat E)) \<and> py_eq_zero years \<longrightarrow>
                 x = F_TIME (FIELD inms ! nat (fieldid p ! i)) - 4453401600) \<and>
              ((\<forall>E. newtime \<noteq> Scalar (PyFloat E)) \<and> \<not> py_eq_zero years \<longrightarrow>
                 py_times_float years SECONDS_PER_YEAR = Inr x) \<and>
              seconds p ! i = (if x < 0 then \<lceil>x\<rceil> else \<lfloor>x\<rfloor>) \<and>
              \<bar>x - real_of_int (seconds p ! i)\<bar> < 1 \<and>
              - (2 ^ 63) \<le> seconds p ! i \<and> seconds p ! i < 2 ^ 63 \<and>
              ((\<forall>i'<length (fieldid p). i' \<noteq> i \<longrightarrow> fieldid p ! i' \<noteq> fieldid p ! i) \<longrightarrow>
                 (\<forall>direct.
                    snd (F_DIR (FIELD w' ! nat (fieldid p ! i)) direct) =
                      snd (F_DIR (FIELD inms ! nat (fieldid p ! i)) direct) +
                      snd (properMotion p) * real_of_int (if x < 0 then \<lceil>x\<rceil> else \<lfloor>x\<rfloor>) \<and>
                    fst (F_DIR (FIELD w' ! nat (fieldid p ! i)) direct) =
                      fst (F_DIR (FIELD inms ! nat (fieldid p ! i)) direct) +
                      fst (properMotion p) * real_of_int (if x < 0 then \<lceil>x\<rceil> else \<lfloor>x\<rfloor>) /
                        cos (snd (F_DIR (FIELD w' ! nat (fieldid p ! i)) direct)))))"
proof -
  from correctForPM_elapsed[OF assms] obtain w1 p where
    s: "copy_and_sync simbad inms field updatepm = Inr w1" and
    p: "prepare w1 field years newtime = Inr p" and
    u: "update_fields (zip (fieldid p) (seconds p)) (properMotion p) w1 = Inr w'" and
    len: "length (seconds p) = length (fieldid p)" and
    secs: "seconds_of newtime years (map (\<lambda>j. F_TIME (FIELD inms ! nat j)) (fieldid p)) =
             Inr (seconds p)"
    by blast
  from correctForPM_once[OF assms] obtain w1' p' where
    s': "copy_and_sync simbad inms field updatepm = Inr w1'" and
    p': "prepare w1' field years newtime = Inr p'" and
    row': "\<forall>i<length (fieldid p').
              (\<forall>i'<length (fieldid p'). i' \<noteq> i \<longrightarrow> fieldid p' ! i' \<noteq> fieldid p' ! i) \<longrightarrow>
              0 \<le> fieldid p' ! i \<and> fieldid p' ! i < int (length (FIELD inms)) \<and>
              FIELD w' ! nat (fieldid p' ! i) =
                shift_row (properMotion p') (seconds p' ! i) (FIELD inms ! nat (fieldid p' ! i))"
    by blast
  have "w1' = w1" using s s' by simp
  then have "p' = p" using p p' by simp
  note row = row'[unfolded \<open>p' = p\<close>]
  let ?ts = "map (\<lambda>j. F_TIME (FIELD inms ! nat j)) (fieldid p)"
  have "\<exists>x.
              (\<forall>E. newtime = Scalar (PyFloat E) \<longrightarrow>
                 x = E - F_TIME (FIELD inms ! nat (fieldid p ! i))) \<and>
              ((\<forall>E. newtime \<noteq> Scalar (PyFloat E)) \<and> py_eq_zero years \<longrightarrow>
                 x = F_TIME (FIELD inms ! nat (fieldid p ! i)) - 4453401600) \<and>
              ((\<forall>E. newtime \<noteq> Scalar (PyFloat E)) \<and> \<not> py_eq_zero years \<longrightarrow>
                 py_times_float years SECONDS_PER_YEAR = Inr x) \<and>
              seconds p ! i = (if x < 0 then \<lceil>x\<rceil> else \<lfloor>x\<rfloor>) \<and>
              \<bar>x - real_of_int (seconds p ! i)\<bar> < 1 \<and>
              - (2 ^ 63) \<le> seconds p ! i \<and> seconds p ! i < 2 ^ 63 \<and>
              ((\<forall>i'<length (fieldid p). i' \<noteq> i \<longrightarrow> fieldid p ! i' \<noteq> fieldid p ! i) \<longrightarrow>
                 (\<forall>direct.
                    snd (F_DIR (FIELD w' ! nat (fieldid p ! i)) direct) =
                      snd (F_DIR (FIELD inms ! nat (fieldid p ! i)) direct) +
                      snd (properMotion p) * real_of_int (if x < 0 then \<lceil>x\<rceil> else \<lfloor>x\<rfloor>) \<and>
                    fst (F_DIR (FIELD w' ! nat (fieldid p ! i)) direct) =
                      fst (F_DIR (FIELD inms ! nat (fieldid p ! i)) direct) +
                      fst (properMotion p) * real_of_int (if x < 0 then \<lceil>x\<rceil> else \<lfloor>x\<rfloor>) /
                        cos (snd (F_DIR (FIELD w' ! nat (fieldid p ! i)) direct))))"
    if i: "i < length (fieldid p)" for i
  proof -
    have il: "i < length ?ts" using i by simp
    from seconds_of_trunc[OF secs il] obtain x where
      x1: "\<forall>E. newtime = Scalar (PyFloat E) \<longrightarrow> x = E - ?ts ! i" and
      x2: "(\<forall>E. newtime \<noteq> Scalar (PyFloat E)) \<and> py_eq_zero years \<longrightarrow> x = ?ts ! i - 4453401600" and
      x3: "(\<forall>E. newtime \<noteq> Scalar (PyFloat E)) \<and> \<not> py_eq_zero years \<longrightarrow>
                 py_times_float years SECONDS_PER_YEAR = Inr x" and
      tr: "seconds p ! i = trunc x"
      by blast
    have ti: "?ts ! i = F_TIME (FIELD inms ! nat (fieldid p ! i))" using i by simp
    have tr': "seconds p ! i = (if x < 0 then \<lceil>x\<rceil> else \<lfloor>x\<rfloor>)" using tr by (simp add: trunc_def)
    have near: "\<bar>x - real_of_int (seconds p ! i)\<bar> < 1" using trunc_bounds[of x] tr by simp
    have "seconds p ! i \<in> set (seconds p)" using i len by simp
    with seconds_of_int64[OF secs] have rng: "- (2 ^ 63) \<le> seconds p ! i \<and> seconds p ! i < 2 ^ 63"
      by blast
    have dir: "snd (F_DIR (FIELD w' ! nat (fieldid p ! i)) direct) =
                      snd (F_DIR (FIELD inms ! nat (fieldid p ! i)) direct) +
                      snd (properMotion p) * real_of_int (if x < 0 then \<lceil>x\<rceil> else \<lfloor>x\<rfloor>) \<and>
                    fst (F_DIR (FIELD w' ! nat (fieldid p ! i)) direct) =
                      fst (F_DIR (FIELD inms ! nat (fieldid p ! i)) direct) +
                      fst (properMotion p) * real_of_int (if x < 0 then \<lceil>x\<rceil> else \<lfloor>x\<rfloor>) /
                        cos (snd (F_DIR (FIELD w' ! nat (fieldid p ! i)) direct))"
      if once: "\<forall>i'<length (fieldid p). i' \<noteq> i \<longrightarrow> fieldid p ! i' \<noteq> fieldid p ! i" for direct
    proof -
      from row i once have "FIELD w' ! nat (fieldid p ! i) =
          shift_row (properMotion p) (seconds p ! i) (FIELD inms ! nat (fieldid p ! i))"
        by blast
      then show ?thesis unfolding tr'[symmetric] by (simp add: new_direction_def Let_def)
    qed
    show ?thesis
      apply (rule exI[of _ x])
      using x1 x2 x3 tr' near rng dir unfolding ti by blast
  qed
  with s p len show ?thesis by blast
qed

theorem seconds_truncated_witness:
  "\<exists>w'. correctForPM no_catalog demo_ms (Scalar (PyStr ''hr8799'')) (Scalar (PyInt 0)) (Scalar PyNone) False
           = Inr w' \<and>
        F_TIME (FIELD demo_ms ! 0) - 4453401600 = 100.5 \<and>
        snd (F_DIR (FIELD demo_ms ! 0) DELAY_DIR) = 1 / 10 \<and>
        snd (F_DIR (FIELD w' ! 0) DELAY_DIR) = 1 / 10 + 1 / 1000 * 100"
proof -
  let ?f = "Scalar (PyStr ''hr8799'')"
  let ?y = "Scalar (PyInt 0)" and ?n = "Scalar PyNone"
  have t: "F_TIME (FIELD demo_ms ! 0) - 4453401600 = 100.5" by (simp add: demo_ms_def)
  have old: "snd (F_DIR (FIELD demo_ms ! 0) DELAY_DIR) = 1 / 10" by (simp add: demo_ms_def)
  have ids: "fieldid_of (map F_NAME (FIELD (copytree demo_ms))) ?f = IntArr [0]"
    by (simp add: where_eq_def demo_ms_def)
  define w' where "w' = final (correctForPM no_catalog demo_ms ?f ?y ?n False)"
  have r: "correctForPM no_catalog demo_ms ?f ?y ?n False = Inr w'"
    unfolding w'_def by (rule demo_returns)
  from seconds_truncated [OF r] obtain w1 p where
    s: "copy_and_sync no_catalog demo_ms ?f False = Inr w1" and
    p: "prepare w1 ?f ?y ?n = Inr p" and
    e: "\<forall>i<length (fieldid p). \<exists>x.
              ((\<forall>E. ?n \<noteq> Scalar (PyFloat E)) \<and> py_eq_zero ?y \<longrightarrow>
                 x = F_TIME (FIELD demo_ms ! nat (fieldid p ! i)) - 4453401600) \<and>
              ((\<forall>i'<length (fieldid p). i' \<noteq> i \<longrightarrow> fieldid p ! i' \<noteq> fieldid p ! i) \<longrightarrow>
                 (\<forall>direct.
                    snd (F_DIR (FIELD w' ! nat (fieldid p ! i)) direct) =
                      snd (F_DIR (FIELD demo_ms ! nat (fieldid p ! i)) direct) +
                      snd (properMotion p) * real_of_int (if x < 0 then \<lceil>x\<rceil> else \<lfloor>x\<rfloor>)))"
    by (elim exE conjE) (erule that, assumption, fast)
  have w1: "w1 = copytree demo_ms" using s by (simp add: copy_and_sync_off)
  have pe: "p = \<lparr>fieldid = [0], seconds = [100], properMotion = (1 / 100, 1 / 1000)\<rparr>"
    using p demo_plan unfolding w1 by simp
  from e[rule_format, of 0] obtain x where
    x: "x = F_TIME (FIELD demo_ms ! 0) - 4453401600" and
    d: "snd (F_DIR (FIELD w' ! 0) DELAY_DIR) =
          snd (F_DIR (FIELD demo_ms ! 0) DELAY_DIR) +
          1 / 1000 * real_of_int (if x < 0 then \<lceil>x\<rceil> else \<lfloor>x\<rfloor>)"
    unfolding pe by auto
  have xv: "x = 201 / 2" using x t by simp
  have "(if x < 0 then \<lceil>x\<rceil> else \<lfloor>x\<rfloor>) = 100" unfolding xv by simp
  with d old have new: "snd (F_DIR (FIELD w' ! 0) DELAY_DIR) = 1 / 10 + 1 / 1000 * 100" by simp
  show ?thesis
    apply (rule exI[of _ w'])
    apply (simp only: r t old new simp_thms)
    done
qed

section \<open>What an invocation leaves alone\<close>

lemma correctForPM_final:
  "\<exists>js pm. FIELD (final (correctForPM simbad inms field years newtime updatepm)) =
             FIELD (final (update_fields js pm (final (copy_and_sync simbad inms field updatepm)))) \<and>
           SOURCE (final (correctForPM simbad inms field years newtime updatepm)) =
             SOURCE (final (update_fields js pm (final (copy_and_sync simbad inms field updatepm)))) \<and>
           (\<forall>k. k \<in> fst ` set js \<longrightarrow>
              (\<exists>ids. fieldid_of (map F_NAME (FIELD inms)) field = IntArr ids \<and> k \<in> set ids))"
proof -
  let ?s = "copy_and_sync simbad inms field updatepm"
  let ?run = "correctForPM simbad inms field years newtime updatepm"
  have nil: ?thesis if "final ?run = final ?s"
    using that by (intro exI[of _ "[]"] exI[of _ "(0, 0)"]) simp
  show ?thesis
  proof (cases ?s)
    case (Inl f)
    then have "final ?run = final ?s" by (simp add: correctForPM_def)
    then show ?thesis by (rule nil)
  next
    case (Inr w1)
    have fld: "FIELD w1 = FIELD inms"
      using copy_and_sync_FIELD[of simbad inms field updatepm] Inr by simp
    show ?thesis
    proof (cases "prepare w1 field years newtime")
      case (Inl e)
      then have "final ?run = final ?s" using Inr by (simp add: correctForPM_def)
      then show ?thesis by (rule nil)
    next
      case p: (Inr p)
      let ?js = "zip (fieldid p) (seconds p)"
      let ?u = "update_fields ?js (properMotion p) w1"
      have ids: "fieldid_of (map F_NAME (FIELD inms)) field = IntArr (fieldid p)"
        using prepare_Inr[OF p] fld by simp
      have sel: "\<forall>k. k \<in> fst ` set ?js \<longrightarrow>
          (\<exists>ids. fieldid_of (map F_NAME (FIELD inms)) field = IntArr ids \<and> k \<in> set ids)"
        using ids by (auto dest: set_zip_leftD)
      have "FIELD (final ?run) = FIELD (final ?u) \<and> SOURCE (final ?run) = SOURCE (final ?u)"
        using Inr p by (cases ?u) (auto simp: correctForPM_def)
      then show ?thesis using sel Inr
        by (intro exI[of _ ?js] exI[of _ "properMotion p"]) simp
    qed
  qed
qed

text \<open>
  Claim C10.  Whether the invocation returns or raises, the output has the rows of the
  input; in FIELD the columns NAME, SOURCE_ID and TIME are as copied, and a row that
  differs from its copy (in a direction, then) is one of \<^verbatim>\<open>fieldid\<close>; in SOURCE the
  columns NAME and SOURCE_ID are as copied, and a \<^verbatim>\<open>PROPER_MOTION\<close> cell that differs
  from its copy belongs to a row that line 128 of \<^verbatim>\<open>updatePM\<close> found for the specifier
  (for a name, a row of that name; for a list, a row where the broadcast comparison
  holds), \<^verbatim>\<open>updatepm\<close> being set and the catalog having matched.
\<close>

theorem only_directions_and_proper_motion_written:
  assumes "w' = final (correctForPM simbad inms field years newtime updatepm)"
  shows "length (FIELD w') = length (FIELD inms) \<and>
         length (SOURCE w') = length (SOURCE inms) \<and>
         (\<forall>k<length (FIELD inms).
            F_NAME (FIELD w' ! k) = F_NAME (FIELD inms ! k) \<and>
            F_SOURCE_ID (FIELD w' ! k) = F_SOURCE_ID (FIELD inms ! k) \<and>
            F_TIME (FIELD w' ! k) = F_TIME (FIELD inms ! k) \<and>
            (FIELD w' ! k \<noteq> FIELD inms ! k \<longrightarrow>
               (\<exists>ids. fieldid_of (map F_NAME (FIELD inms)) field = IntArr ids \<and> int k \<in> set ids))) \<and>
         (\<forall>k<length (SOURCE inms).
            S_NAME (SOURCE w' ! k) = S_NAME (SOURCE inms ! k) \<and>
            S_SOURCE_ID (SOURCE w' ! k) = S_SOURCE_ID (SOURCE inms ! k) \<and>
            (PROPER_MOTION (SOURCE w' ! k) \<noteq> PROPER_MOTION (SOURCE inms ! k) \<longrightarrow>
               updatepm \<and> simbad field \<noteq> None \<and>
               (\<exists>rows. name_rows (map S_NAME (SOURCE inms)) field = Inr rows \<and> int k \<in> set rows) \<and>
               (\<forall>q. field = Scalar (PyStr q) \<longrightarrow> S_NAME (SOURCE inms ! k) = q)))"
proof -
  let ?s = "copy_and_sync simbad inms field updatepm"
  from correctForPM_final[of simbad inms field years newtime updatepm] assms
  obtain js pm where
    f: "FIELD w' = FIELD (final (update_fields js pm (final ?s)))" and
    s: "SOURCE w' = SOURCE (final (update_fields js pm (final ?s)))" and
    sel: "\<forall>k. k \<in> fst ` set js \<longrightarrow>
              (\<exists>ids. fieldid_of (map F_NAME (FIELD inms)) field = IntArr ids \<and> k \<in> set ids)"
    by auto
  note fr = update_fields_frame[of js pm "final ?s"]
  have fld: "FIELD (final ?s) = FIELD inms" by (rule copy_and_sync_FIELD)
  have src: "SOURCE w' = SOURCE (final ?s)" using s fr by simp
  have l1: "length (FIELD w') = length (FIELD inms)" using f fr fld by simp
  have l2: "length (SOURCE w') = length (SOURCE inms)"
    using src by (simp add: copy_and_sync_SOURCE_length)
  have rows: "F_NAME (FIELD w' ! k) = F_NAME (FIELD inms ! k) \<and>
            F_SOURCE_ID (FIELD w' ! k) = F_SOURCE_ID (FIELD inms ! k) \<and>
            F_TIME (FIELD w' ! k) = F_TIME (FIELD inms ! k) \<and>
            (FIELD w' ! k \<noteq> FIELD inms ! k \<longrightarrow>
               (\<exists>ids. fieldid_of (map F_NAME (FIELD inms)) field = IntArr ids \<and> int k \<in> set ids))"
    if k: "k < length (FIELD inms)" for k
  proof -
    from fr k fld have
      c: "F_NAME (FIELD w' ! k) = F_NAME (FIELD inms ! k)"
         "F_SOURCE_ID (FIELD w' ! k) = F_SOURCE_ID (FIELD inms ! k)"
         "F_TIME (FIELD w' ! k) = F_TIME (FIELD inms ! k)" and
      u: "int k \<notin> fst ` set js \<longrightarrow> FIELD w' ! k = FIELD inms ! k"
      unfolding f by simp_all
    from u sel have "FIELD w' ! k \<noteq> FIELD inms ! k \<longrightarrow>
               (\<exists>ids. fieldid_of (map F_NAME (FIELD inms)) field = IntArr ids \<and> int k \<in> set ids)"
      by blast
    with c show ?thesis by simp
  qed
  have srows: "S_NAME (SOURCE w' ! k) = S_NAME (SOURCE inms ! k) \<and>
            S_SOURCE_ID (SOURCE w' ! k) = S_SOURCE_ID (SOURCE inms ! k) \<and>
            (PROPER_MOTION (SOURCE w' ! k) \<noteq> PROPER_MOTION (SOURCE inms ! k) \<longrightarrow>
               updatepm \<and> simbad field \<noteq> None \<and>
               (\<exists>rows. name_rows (map S_NAME (SOURCE inms)) field = Inr rows \<and> int k \<in> set rows) \<and>
               (\<forall>q. field = Scalar (PyStr q) \<longrightarrow> S_NAME (SOURCE inms ! k) = q))"
    if k: "k < length (SOURCE inms)" for k
  proof -
    let ?names = "map S_NAME (SOURCE inms)"
    have nm: "S_NAME (SOURCE inms ! k) = q"
      if "field = Scalar (PyStr q)" "name_rows ?names field = Inr rows" "int k \<in> set rows" for q rows
    proof -
      have "int k \<in> set (where_eq ?names q)" using that by simp
      then show ?thesis using set_where_eq[of ?names q] k by auto
    qed
    from copy_and_sync_SOURCE_nth[OF k, of simbad field updatepm]
    show ?thesis
    proof
      assume "SOURCE (final ?s) ! k = SOURCE inms ! k"
      then show ?thesis unfolding src by simp
    next
      assume "\<exists>r rows. updatepm \<and> simbad field = Some r \<and>
            name_rows ?names field = Inr rows \<and> int k \<in> set rows \<and>
            SOURCE (final ?s) ! k = (SOURCE inms ! k)\<lparr>PROPER_MOTION := to_rad_s r\<rparr>"
      then obtain r rows where u: updatepm and r: "simbad field = Some r"
          and rows: "name_rows ?names field = Inr rows" "int k \<in> set rows"
          and row: "SOURCE (final ?s) ! k = (SOURCE inms ! k)\<lparr>PROPER_MOTION := to_rad_s r\<rparr>"
        by blast
      have "\<forall>q. field = Scalar (PyStr q) \<longrightarrow> S_NAME (SOURCE inms ! k) = q"
        using nm rows by blast
      moreover have "\<exists>rows. name_rows ?names field = Inr rows \<and> int k \<in> set rows"
        using rows by blast
      ultimately show ?thesis unfolding src using u r row by simp
    qed
  qed
  show ?thesis using l1 l2 rows srows by blast
qed

theorem only_directions_and_proper_motion_written_witness:
  "length (FIELD (final (correctForPM demo_catalog demo_ms (Scalar (PyStr ''hr8799''))
                           (Scalar (PyInt 0)) (Scalar PyNone) True))) = 2 \<and>
   FIELD (final (correctForPM demo_catalog demo_ms (Scalar (PyStr ''hr8799''))
                   (Scalar (PyInt 0)) (Scalar PyNone) True)) ! 1 = FIELD demo_ms ! 1 \<and>
   F_TIME (FIELD (final (correctForPM demo_catalog demo_ms (Scalar (PyStr ''hr8799''))
                           (Scalar (PyInt 0)) (Scalar PyNone) True)) ! 0) = 4453401700.5 \<and>
   PROPER_MOTION (SOURCE (final (correctForPM demo_catalog demo_ms (Scalar (PyStr ''hr8799''))
                                   (Scalar (PyInt 0)) (Scalar PyNone) True)) ! 0) = (0, 0)"
proof -
  let ?field = "Scalar (PyStr ''hr8799'')"
  let ?w = "final (correctForPM demo_catalog demo_ms ?field (Scalar (PyInt 0)) (Scalar PyNone) True)"
  note t = only_directions_and_proper_motion_written
    [of ?w demo_catalog demo_ms ?field "Scalar (PyInt 0)" "Scalar PyNone" True, OF refl]
  have lf: "length (FIELD demo_ms) = 2" and ls: "length (SOURCE demo_ms) = 2"
    by (simp_all add: demo_ms_def)
  have ids: "fieldid_of (map F_NAME (FIELD demo_ms)) ?field = IntArr [0]"
    by (simp add: demo_ms_def where_eq_def)
  have a: "length (FIELD ?w) = 2" using t lf by simp
  have k1: "(1::nat) < length (FIELD demo_ms)" and k0: "(0::nat) < length (FIELD demo_ms)"
    using lf by simp_all
  have s0: "(0::nat) < length (SOURCE demo_ms)" using ls by simp
  from t k1 have "FIELD ?w ! 1 \<noteq> FIELD demo_ms ! 1 \<longrightarrow>
      (\<exists>ids. fieldid_of (map F_NAME (FIELD demo_ms)) ?field = IntArr ids \<and> int 1 \<in> set ids)"
    by blast
  then have b: "FIELD ?w ! 1 = FIELD demo_ms ! 1" unfolding ids by auto
  from t k0 have "F_TIME (FIELD ?w ! 0) = F_TIME (FIELD demo_ms ! 0)" by blast
  then have c: "F_TIME (FIELD ?w ! 0) = 4453401700.5" by (simp add: demo_ms_def)
  from t s0 have "PROPER_MOTION (SOURCE ?w ! 0) \<noteq> PROPER_MOTION (SOURCE demo_ms ! 0) \<longrightarrow>
      (\<forall>q. ?field = Scalar (PyStr q) \<longrightarrow> S_NAME (SOURCE demo_ms ! 0) = q)"
    by blast
  then have "PROPER_MOTION (SOURCE ?w ! 0) = PROPER_MOTION (SOURCE demo_ms ! 0)"
    by (auto simp: demo_ms_def)
  then have d: "PROPER_MOTION (SOURCE ?w ! 0) = (0, 0)" by (simp add: demo_ms_def)
  from a b c d show ?thesis by blast
qed

end
